theory Spec2Isabelle
  imports Complex_Main "HOL-Library.Sublist"
begin

section \<open>Strings\<close>

text \<open>
  A JavaScript string is a sequence of UTF-16 code units. The model keeps the code units
  \<open>0..255\<close> (the Latin-1 range), as the type \<open>char\<close>: on these, \<open>toLowerCase\<close>
  maps \<open>A-Z\<close>, \<open>U+00C0-U+00D6\<close> and \<open>U+00D8-U+00DE\<close> to the code unit 32 above,
  and \<open>trim\<close> strips TAB, LF, VT, FF, CR, SPACE and NBSP from both ends.
\<close>

definition lowerUnit :: "char \<Rightarrow> char" where
  "lowerUnit c =
     (let n = (of_char c :: nat)
      in if (65 \<le> n \<and> n \<le> 90) \<or> (192 \<le> n \<and> n \<le> 214) \<or> (216 \<le> n \<and> n \<le> 222)
         then char_of (n + 32) else c)"

definition toLowerCase :: "string \<Rightarrow> string" where
  "toLowerCase s = map lowerUnit s"

definition isWhiteSpace :: "char \<Rightarrow> bool" where
  "isWhiteSpace c = ((of_char c :: nat) \<in> {9, 10, 11, 12, 13, 32, 160})"

definition trim :: "string \<Rightarrow> string" where
  "trim s = rev (dropWhile isWhiteSpace (rev (dropWhile isWhiteSpace s)))"

text \<open>\<open>s.includes(t)\<close>: \<open>t\<close> occurs in \<open>s\<close> as a contiguous run.\<close>

fun str_includes :: "string \<Rightarrow> string \<Rightarrow> bool" where
  "str_includes [] t = (t = [])"
| "str_includes (c # s) t = (prefix t (c # s) \<or> str_includes s t)"

text \<open>
  Number-to-string conversion of a count (\<open>count + ' sources found'\<close>): the decimal
  digits. The count is a number of elements of the page, far below \<open>10^21\<close>, where
  JavaScript changes to the exponent notation.
\<close>

definition digitChar :: "nat \<Rightarrow> char" where
  "digitChar k = char_of (48 + k)"

function numberToString :: "nat \<Rightarrow> string" where
  "numberToString n =
     (if n < 10 then [digitChar n] else numberToString (n div 10) @ [digitChar (n mod 10)])"
  by pat_completeness auto
termination
  by (relation "measure (\<lambda>n. n)") auto

declare numberToString.simps [simp del]

text \<open>
  \<open>escapeHtml\<close>: \<open>text.replace(/[&<>"']/g, m => map[m])\<close> rewrites every occurrence of
  the five characters and nothing else.
\<close>

definition escapeChar :: "char \<Rightarrow> string" where
  "escapeChar c =
     (if c = CHR ''&'' then ''&amp;''
      else if c = CHR ''<'' then ''&lt;''
      else if c = CHR ''>'' then ''&gt;''
      else if c = CHR 0x22 then ''&quot;''
      else if c = CHR 0x27 then ''&#039;''
      else [c])"

definition escapeHtml :: "string \<Rightarrow> string" where
  "escapeHtml text = concat (map escapeChar text)"

text \<open>\<open>href.replace(/^[^/]*/, '')\<close> removes the longest leading run of non-slash characters.\<close>

definition stripLeadingNonSlash :: "string \<Rightarrow> string" where
  "stripLeadingNonSlash href = dropWhile (\<lambda>c. c \<noteq> CHR ''/'') href"

section \<open>The page\<close>

text \<open>
  The document is a store of elements in document order; an address is a position in it,
  and stays valid: an element that leaves the document keeps its place in the store and
  is marked as no longer connected, as a reference that the script holds to it would keep
  the object. Each element carries what the script reads or writes: its id, its class
  list, its other attributes, its inline style, its text content, markup assigned through
  \<open>innerHTML\<close>, the \<open>value\<close> property of a form control, the addresses of its ancestors
  (parent first), and whether it is in the document (\<open>isConnected\<close>). The text of an
  element is stored with the element: the script writes text to the label and to the live
  region only and reads text from source buttons only, and the text of markup that the
  script itself assigns is never read back.
\<close>

type_synonym addr = nat

record element =
  tagName :: string
  ident :: "string option"
  classList :: "string list"
  attributes :: "string \<rightharpoonup> string"
  style :: "string \<rightharpoonup> string"
  textContent :: string
  innerHTML :: "string option"
  inputValue :: string
  ancestors :: "addr list"
  isConnected :: bool

type_synonym document = "element list"

definition hasClass :: "string \<Rightarrow> element \<Rightarrow> bool" where
  "hasClass c e = (c \<in> set (classList e))"

text \<open>The queries of the document find connected elements only, the first in document order.\<close>

definition getElementById :: "string \<Rightarrow> document \<Rightarrow> addr option" where
  "getElementById i d = find (\<lambda>a. isConnected (d ! a) \<and> ident (d ! a) = Some i) [0..<length d]"

definition querySelector :: "string \<Rightarrow> document \<Rightarrow> addr option" where
  "querySelector c d = find (\<lambda>a. isConnected (d ! a) \<and> hasClass c (d ! a)) [0..<length d]"

definition querySelectorAll :: "string \<Rightarrow> document \<Rightarrow> addr list" where
  "querySelectorAll c d = filter (\<lambda>a. isConnected (d ! a) \<and> hasClass c (d ! a)) [0..<length d]"

text \<open>The same queries on an element: they range over its descendants.\<close>

definition querySelectorIn :: "addr \<Rightarrow> string \<Rightarrow> document \<Rightarrow> addr option" where
  "querySelectorIn p c d =
     find (\<lambda>a. isConnected (d ! a) \<and> hasClass c (d ! a) \<and> p \<in> set (ancestors (d ! a)))
       [0..<length d]"

definition querySelectorAllIn :: "addr \<Rightarrow> string \<Rightarrow> document \<Rightarrow> addr list" where
  "querySelectorAllIn p c d =
     filter (\<lambda>a. isConnected (d ! a) \<and> hasClass c (d ! a) \<and> p \<in> set (ancestors (d ! a)))
       [0..<length d]"

definition body :: "document \<Rightarrow> addr option" where
  "body d = find (\<lambda>a. isConnected (d ! a) \<and> tagName (d ! a) = ''body'') [0..<length d]"

definition createElement :: "string \<Rightarrow> element" where
  "createElement t =
     \<lparr>tagName = t, ident = None, classList = [], attributes = Map.empty, style = Map.empty,
      textContent = [], innerHTML = None, inputValue = [], ancestors = [],
      isConnected = False\<rparr>"

text \<open>
  \<open>p.appendChild(e)\<close> for a new element: it becomes the last child of \<open>p\<close> and is in the
  document from then on. The store puts it at the end; no query of the script can tell
  the difference, since a created element is only ever looked up by an id or class that
  no earlier element has.
\<close>

definition appendChild :: "addr \<Rightarrow> element \<Rightarrow> document \<Rightarrow> document" where
  "appendChild p e d = d @ [e\<lparr>ancestors := p # ancestors (d ! p), isConnected := True\<rparr>]"

definition appendToBody :: "element \<Rightarrow> document \<Rightarrow> document" where
  "appendToBody e d =
     (case body d of
        None \<Rightarrow> d @ [e\<lparr>ancestors := [], isConnected := True\<rparr>]
      | Some b \<Rightarrow> appendChild b e d)"

text \<open>
  A write to an attribute, a style, a class list or a value changes one element in place.
  A write through an address outside the store changes nothing.
\<close>

definition modify :: "addr \<Rightarrow> (element \<Rightarrow> element) \<Rightarrow> document \<Rightarrow> document" where
  "modify a f d = d[a := f (d ! a)]"

definition setAttribute :: "addr \<Rightarrow> string \<Rightarrow> string \<Rightarrow> document \<Rightarrow> document" where
  "setAttribute a n v d = modify a (\<lambda>e. e\<lparr>attributes := (attributes e)(n \<mapsto> v)\<rparr>) d"

definition removeAttribute :: "addr \<Rightarrow> string \<Rightarrow> document \<Rightarrow> document" where
  "removeAttribute a n d = modify a (\<lambda>e. e\<lparr>attributes := (attributes e)(n := None)\<rparr>) d"

definition getAttribute :: "addr \<Rightarrow> string \<Rightarrow> document \<Rightarrow> string option" where
  "getAttribute a n d = attributes (d ! a) n"

definition setStyle :: "addr \<Rightarrow> string \<Rightarrow> string \<Rightarrow> document \<Rightarrow> document" where
  "setStyle a n v d = modify a (\<lambda>e. e\<lparr>style := (style e)(n \<mapsto> v)\<rparr>) d"

text \<open>A class list is a set of tokens: adding a token twice keeps one, removing drops it.\<close>

definition classListAdd :: "addr \<Rightarrow> string \<Rightarrow> document \<Rightarrow> document" where
  "classListAdd a c d =
     modify a (\<lambda>e. e\<lparr>classList :=
        (if c \<in> set (classList e) then classList e else classList e @ [c])\<rparr>) d"

definition classListRemove :: "addr \<Rightarrow> string \<Rightarrow> document \<Rightarrow> document" where
  "classListRemove a c d = modify a (\<lambda>e. e\<lparr>classList := filter (\<lambda>x. x \<noteq> c) (classList e)\<rparr>) d"

text \<open>
  The \<open>textContent\<close> setter replaces every child of the element by one text node: the
  elements below it leave the document.
\<close>

definition descendants :: "addr \<Rightarrow> document \<Rightarrow> addr list" where
  "descendants a d = filter (\<lambda>b. b \<noteq> a \<and> a \<in> set (ancestors (d ! b))) [0..<length d]"

definition removeChildren :: "addr \<Rightarrow> document \<Rightarrow> document" where
  "removeChildren a d = fold (\<lambda>b. modify b (\<lambda>e. e\<lparr>isConnected := False\<rparr>)) (descendants a d) d"

definition setTextContent :: "addr \<Rightarrow> string \<Rightarrow> document \<Rightarrow> document" where
  "setTextContent a t d =
     (if a < length d
      then modify a (\<lambda>e. e\<lparr>textContent := t, innerHTML := None\<rparr>) (removeChildren a d)
      else d)"

definition setValue :: "addr \<Rightarrow> string \<Rightarrow> document \<Rightarrow> document" where
  "setValue a v d = modify a (\<lambda>e. e\<lparr>inputValue := v\<rparr>) d"

section \<open>Functions that only touch the document\<close>

subsection \<open>initializeFilterNav\<close>

definition initializeFilterNav :: "document \<Rightarrow> document" where
  "initializeFilterNav d =
     (let sourcesContent = getElementById ''sources-content'' d;
          toggleButton = querySelector ''toggle-sources'' d
      in case (sourcesContent, toggleButton) of
           (Some sc, Some tb) \<Rightarrow>
             setAttribute sc ''aria-hidden'' ''true'' (setAttribute tb ''aria-expanded'' ''false'' d)
         | _ \<Rightarrow> d)"

subsection \<open>announceSearchResults\<close>

definition announcementText :: "nat \<Rightarrow> string \<Rightarrow> string" where
  "announcementText count searchTerm =
     (if searchTerm = [] then ''All sources displayed''
      else if count = 0 then ''No sources found''
      else if count = 1 then ''1 source found''
      else numberToString count @ '' sources found'')"

definition newLiveRegion :: element where
  "newLiveRegion =
     (createElement ''div'')
       \<lparr>ident := Some ''search-results-live'',
        attributes := Map.empty(''aria-live'' \<mapsto> ''polite'', ''aria-atomic'' \<mapsto> ''true''),
        style := Map.empty(''position'' \<mapsto> ''absolute'', ''left'' \<mapsto> ''-10000px'',
                   ''width'' \<mapsto> ''1px'', ''height'' \<mapsto> ''1px'', ''overflow'' \<mapsto> ''hidden'')\<rparr>"

definition announceSearchResults :: "nat \<Rightarrow> string \<Rightarrow> document \<Rightarrow> document" where
  "announceSearchResults count searchTerm d =
     (let announcement = announcementText count searchTerm
      in case getElementById ''search-results-live'' d of
           None \<Rightarrow> setTextContent (length d) announcement (appendToBody newLiveRegion d)
         | Some liveRegion \<Rightarrow> setTextContent liveRegion announcement d)"

subsection \<open>filterSources, as declared (the pass that the debounce wrapper delays)\<close>

definition isVisible :: "string \<Rightarrow> element \<Rightarrow> bool" where
  "isVisible searchTerm button =
     (let buttonText = toLowerCase (textContent button);
          dataSource = (case attributes button ''data-source'' of None \<Rightarrow> [] | Some v \<Rightarrow> v)
      in str_includes buttonText searchTerm \<or> str_includes (toLowerCase dataSource) searchTerm)"

definition filterButton :: "string \<Rightarrow> addr \<Rightarrow> document \<times> nat \<Rightarrow> document \<times> nat" where
  "filterButton searchTerm button acc =
     (case acc of (d, visibleCount) \<Rightarrow>
        if isVisible searchTerm (d ! button)
        then (removeAttribute button ''aria-hidden'' (setStyle button ''display'' ''flex'' d),
              visibleCount + 1)
        else (setAttribute button ''aria-hidden'' ''true'' (setStyle button ''display'' ''none'' d),
              visibleCount))"

definition newNoResultsMsg :: "string \<Rightarrow> element" where
  "newNoResultsMsg searchTerm =
     (createElement ''div'')
       \<lparr>classList := [''no-results'', ''text-center'', ''text-muted'', ''py-3''],
        innerHTML := Some (''<i class=\"fas fa-search\"></i> No sources found matching \"''
                           @ escapeHtml searchTerm @ ''\"'')\<rparr>"

definition showNoResults :: "addr \<Rightarrow> nat \<Rightarrow> string \<Rightarrow> document \<Rightarrow> document" where
  "showNoResults allSources visibleCount searchTerm d =
     (let noResultsMsg = querySelectorIn allSources ''no-results'' d
      in if visibleCount = 0 \<and> searchTerm \<noteq> []
         then (case noResultsMsg of
                 None \<Rightarrow> setStyle (length d) ''display'' ''block''
                           (appendChild allSources (newNoResultsMsg searchTerm) d)
               | Some m \<Rightarrow> setStyle m ''display'' ''block'' d)
         else (case noResultsMsg of
                 None \<Rightarrow> d
               | Some m \<Rightarrow> setStyle m ''display'' ''none'' d))"

definition originalFilterSources :: "document \<Rightarrow> document" where
  "originalFilterSources d =
     (let searchInput = getElementById ''source-search'' d;
          allSources = querySelector ''all-sources'' d
      in case (searchInput, allSources) of
           (Some si, Some als) \<Rightarrow>
             (let searchTerm = trim (toLowerCase (inputValue (d ! si)));
                  sourceButtons = querySelectorAllIn als ''source-btn'' d;
                  (d1, visibleCount) = fold (filterButton searchTerm) sourceButtons (d, 0)
              in announceSearchResults visibleCount searchTerm
                   (showNoResults als visibleCount searchTerm d1))
         | _ \<Rightarrow> d)"

subsection \<open>initializeActiveFilters\<close>

text \<open>
  The body of both \<open>forEach\<close> loops. In JavaScript the empty string is falsy, so
  \<open>href && ...\<close> skips a link without href and a link whose href is empty.
\<close>

definition markActive :: "string \<Rightarrow> addr \<Rightarrow> document \<Rightarrow> document" where
  "markActive currentPath btn d =
     (case getAttribute btn ''href'' d of
        None \<Rightarrow> d
      | Some href \<Rightarrow>
          if href \<noteq> [] \<and> str_includes currentPath (stripLeadingNonSlash href)
          then setAttribute btn ''aria-current'' ''page'' (classListAdd btn ''active'' d)
          else d)"

definition initializeActiveFilters :: "string \<Rightarrow> document \<Rightarrow> document" where
  "initializeActiveFilters currentPath d =
     (let categoryBtns = querySelectorAll ''category-btn'' d;
          d1 = fold (markActive currentPath) categoryBtns d;
          sourceBtns = querySelectorAll ''source-btn'' d1
      in fold (markActive currentPath) sourceBtns d1)"

section \<open>The window: timers, listeners and the rest of the state\<close>

text \<open>
  Timers run on a clock that counts milliseconds. \<open>setTimeout\<close> appends a timer that is
  due \<open>delay\<close> ms from now, \<open>clearTimeout\<close> removes it, and the event loop runs a timer
  at the millisecond it falls due (\<open>elapse\<close>). A callback is one of the two that the script
  ever schedules (\<open>focus()\<close> on an element that has left the document does nothing).
  \<open>taskLog\<close> is the event loop's record of the callbacks it has run, with
  the time of each. Every scroll listener is a closure with its own \<open>backToTop\<close> and
  \<open>ticking\<close>; \<open>frames\<close> holds the listeners with a pending animation-frame callback.
\<close>

datatype task = FocusTask addr | FilterTask

record timer =
  timerId :: nat
  due :: nat
  job :: task

record watcher =
  backToTop :: addr
  ticking :: bool

record state =
  doc :: document
  pathname :: string
  pageYOffset :: real
  activeElement :: "addr option"
  console :: "string list"
  now :: nat
  timers :: "timer list"
  nextTimer :: nat
  searchTimeout :: "nat option"
  watchers :: "watcher list"
  frames :: "nat list"
  taskLog :: "(nat \<times> task) list"

definition setTimeout :: "task \<Rightarrow> nat \<Rightarrow> state \<Rightarrow> state" where
  "setTimeout t delay s =
     s\<lparr>timers := timers s @ [\<lparr>timerId = nextTimer s, due = now s + delay, job = t\<rparr>],
       nextTimer := Suc (nextTimer s)\<rparr>"

definition clearTimeout :: "nat option \<Rightarrow> state \<Rightarrow> state" where
  "clearTimeout h s =
     (case h of
        None \<Rightarrow> s
      | Some i \<Rightarrow> s\<lparr>timers := filter (\<lambda>t. timerId t \<noteq> i) (timers s)\<rparr>)"

subsection \<open>toggleSourcesSection\<close>

definition collapse :: "addr \<Rightarrow> addr \<Rightarrow> addr \<Rightarrow> document \<Rightarrow> document" where
  "collapse sourcesContent toggleButton toggleText d =
     setTextContent toggleText ''Show All Sources''
       (setAttribute sourcesContent ''aria-hidden'' ''true''
         (setAttribute toggleButton ''aria-expanded'' ''false''
           (classListRemove sourcesContent ''show''
             (setStyle sourcesContent ''display'' ''none'' d))))"

definition expand :: "addr \<Rightarrow> addr \<Rightarrow> addr \<Rightarrow> document \<Rightarrow> document" where
  "expand sourcesContent toggleButton toggleText d =
     setTextContent toggleText ''Hide All Sources''
       (setAttribute sourcesContent ''aria-hidden'' ''false''
         (setAttribute toggleButton ''aria-expanded'' ''true''
           (classListAdd sourcesContent ''show''
             (setStyle sourcesContent ''display'' ''block'' d))))"

definition toggleSourcesSection :: "state \<Rightarrow> state" where
  "toggleSourcesSection s0 =
     (let s = s0\<lparr>console := console s0 @ [''toggleSourcesSection called'']\<rparr>;
          sourcesContent = getElementById ''sources-content'' (doc s);
          toggleButton = querySelector ''toggle-sources'' (doc s);
          toggleText = querySelector ''toggle-text'' (doc s);
          toggleIcon = querySelector ''toggle-icon'' (doc s)
      in case (sourcesContent, toggleButton, toggleText, toggleIcon) of
           (Some sc, Some tb, Some tt, Some ti) \<Rightarrow>
             (let isExpanded = (getAttribute tb ''aria-expanded'' (doc s) = Some ''true'')
              in if isExpanded then s\<lparr>doc := collapse sc tb tt (doc s)\<rparr>
                 else (let s1 = s\<lparr>doc := expand sc tb tt (doc s)\<rparr>
                       in case getElementById ''source-search'' (doc s1) of
                            None \<Rightarrow> s1
                          | Some searchInput \<Rightarrow> setTimeout (FocusTask searchInput) 300 s1))
         | _ \<Rightarrow> s)"

subsection \<open>filterSources, as reassigned: the debounce wrapper\<close>

text \<open>
  The wrapper replaces the global binding when the script loads, before any event; every
  later call of \<open>filterSources()\<close>, the one of the keydown handler included, runs it.
\<close>

definition filterSources :: "state \<Rightarrow> state" where
  "filterSources s =
     (let s1 = clearTimeout (searchTimeout s) s
      in (setTimeout FilterTask 150 s1)\<lparr>searchTimeout := Some (nextTimer s1)\<rparr>)"

subsection \<open>The keydown listener\<close>

text \<open>
  The listener takes the key and the target of the event. \<open>preventDefault()\<close> changes
  nothing that the script reads and is left out.
\<close>

definition keydown :: "string \<Rightarrow> addr \<Rightarrow> state \<Rightarrow> state" where
  "keydown key target s =
     (let s1 = (if (key = ''Enter'' \<or> key = '' '') \<and> hasClass ''toggle-sources'' (doc s ! target)
                then toggleSourcesSection s else s)
      in if key = ''Escape''
         then (case getElementById ''source-search'' (doc s1) of
                 None \<Rightarrow> s1
               | Some searchInput \<Rightarrow>
                   if activeElement s1 = Some searchInput
                   then filterSources (s1\<lparr>doc := setValue searchInput [] (doc s1)\<rparr>)
                   else s1)
         else s1)"

subsection \<open>initializeBackToTop and its scroll listener\<close>

definition newBackToTop :: element where
  "newBackToTop =
     (createElement ''button'')
       \<lparr>classList := [''back-to-top''],
        innerHTML := Some ''<i class=\"fas fa-chevron-up\" aria-hidden=\"true\"></i>'',
        attributes := Map.empty(''aria-label'' \<mapsto> ''Back to top'', ''title'' \<mapsto> ''Back to top'')\<rparr>"

definition initializeBackToTop :: "state \<Rightarrow> state" where
  "initializeBackToTop s =
     s\<lparr>doc := appendToBody newBackToTop (doc s),
       watchers := watchers s @ [\<lparr>backToTop = length (doc s), ticking = False\<rparr>]\<rparr>"

text \<open>
  The listener \<open>i\<close> on a scroll event, and the frame callback it requests. The button's
  click handler (\<open>scrollToTop\<close>, a smooth scroll to offset 0) writes nothing that the
  script reads and is left out.
\<close>

definition onScroll :: "nat \<Rightarrow> state \<Rightarrow> state" where
  "onScroll i s =
     (if \<not> ticking (watchers s ! i)
      then s\<lparr>frames := frames s @ [i],
             watchers := (watchers s)[i := (watchers s ! i)\<lparr>ticking := True\<rparr>]\<rparr>
      else s)"

definition frameCallback :: "nat \<Rightarrow> state \<Rightarrow> state" where
  "frameCallback i s =
     (let button = backToTop (watchers s ! i);
          scrolled = pageYOffset s;
          d = (if scrolled > 300 then classListAdd button ''show'' (doc s)
               else classListRemove button ''show'' (doc s))
      in s\<lparr>doc := d, watchers := (watchers s)[i := (watchers s ! i)\<lparr>ticking := False\<rparr>]\<rparr>)"

text \<open>The user scrolls to offset \<open>y\<close>; the browser renders a frame.\<close>

definition scrollEvent :: "real \<Rightarrow> state \<Rightarrow> state" where
  "scrollEvent y s = fold onScroll [0..<length (watchers s)] (s\<lparr>pageYOffset := y\<rparr>)"

definition animationFrame :: "state \<Rightarrow> state" where
  "animationFrame s = fold frameCallback (frames s) (s\<lparr>frames := []\<rparr>)"

subsection \<open>DOMContentLoaded\<close>

definition domContentLoaded :: "state \<Rightarrow> state" where
  "domContentLoaded s =
     (let s1 = s\<lparr>doc := initializeFilterNav (doc s)\<rparr>;
          s2 = initializeBackToTop s1
      in s2\<lparr>doc := initializeActiveFilters (pathname s2) (doc s2)\<rparr>)"

subsection \<open>The event loop\<close>

definition runTimer :: "timer \<Rightarrow> state \<Rightarrow> state" where
  "runTimer t s =
     (let s1 = s\<lparr>taskLog := taskLog s @ [(now s, job t)]\<rparr>
      in case job t of
           FocusTask a \<Rightarrow>
             if isConnected (doc s1 ! a) then s1\<lparr>activeElement := Some a\<rparr> else s1
         | FilterTask \<Rightarrow> s1\<lparr>doc := originalFilterSources (doc s1)\<rparr>)"

definition fireDue :: "state \<Rightarrow> state" where
  "fireDue s =
     fold runTimer (filter (\<lambda>t. due t \<le> now s) (timers s))
       (s\<lparr>timers := filter (\<lambda>t. \<not> due t \<le> now s) (timers s)\<rparr>)"

fun elapse :: "nat \<Rightarrow> state \<Rightarrow> state" where
  "elapse 0 s = s"
| "elapse (Suc n) s = elapse n (fireDue (s\<lparr>now := Suc (now s)\<rparr>))"

text \<open>
  A keystroke in the search field: the field takes the value \<open>v\<close> and its input handler
  calls \<open>filterSources()\<close>. A burst is a run of keystrokes, each with the time that passed
  since the event before it.
\<close>

definition typeValue :: "string \<Rightarrow> state \<Rightarrow> state" where
  "typeValue v s =
     (case getElementById ''source-search'' (doc s) of
        None \<Rightarrow> s
      | Some searchInput \<Rightarrow> s\<lparr>doc := setValue searchInput v (doc s)\<rparr>)"

fun burst :: "(nat \<times> string) list \<Rightarrow> state \<Rightarrow> state" where
  "burst [] s = s"
| "burst ((gap, v) # rest) s = burst rest (filterSources (typeValue v (elapse gap s)))"

definition filterRuns :: "state \<Rightarrow> nat list" where
  "filterRuns s = map fst (filter (\<lambda>e. snd e = FilterTask) (taskLog s))"

definition timersOk :: "state \<Rightarrow> bool" where
  "timersOk s = list_all (\<lambda>t. job t = FilterTask \<longrightarrow> searchTimeout s = Some (timerId t)) (timers s)"

section \<open>What the claims observe\<close>


text \<open>
  The three values of the panel that a user or a screen reader meets: the toggle's
  \<open>aria-expanded\<close>, the panel's \<open>aria-hidden\<close> and the text of the label (\<open>None\<close> for an
  element that the page does not have).
\<close>

definition toggleExpanded :: "document \<Rightarrow> string option option" where
  "toggleExpanded d =
     map_option (\<lambda>tb. getAttribute tb ''aria-expanded'' d) (querySelector ''toggle-sources'' d)"

definition panelHidden :: "document \<Rightarrow> string option option" where
  "panelHidden d =
     map_option (\<lambda>sc. getAttribute sc ''aria-hidden'' d) (getElementById ''sources-content'' d)"

definition labelText :: "document \<Rightarrow> string option" where
  "labelText d = map_option (\<lambda>tt. textContent (d ! tt)) (querySelector ''toggle-text'' d)"

definition panelView :: "document \<Rightarrow> string option option \<times> string option option \<times> string option" where
  "panelView d = (toggleExpanded d, panelHidden d, labelText d)"

text \<open>The two states that the toggle operation itself produces.\<close>

definition expandedView :: "string option option \<times> string option option \<times> string option" where
  "expandedView = (Some (Some ''true''), Some (Some ''false''), Some ''Hide All Sources'')"

definition collapsedView :: "string option option \<times> string option option \<times> string option" where
  "collapsedView = (Some (Some ''false''), Some (Some ''true''), Some ''Show All Sources'')"

text \<open>
  What one turn of the filter loop does to its button, as a function of the element: the
  button is shown or hidden, and nothing else about it changes.
\<close>

definition showHide :: "string \<Rightarrow> element \<Rightarrow> element" where
  "showHide searchTerm e =
     (if isVisible searchTerm e
      then e\<lparr>style := (style e)(''display'' \<mapsto> ''flex''),
             attributes := (attributes e)(''aria-hidden'' := None)\<rparr>
      else e\<lparr>style := (style e)(''display'' \<mapsto> ''none''),
             attributes := (attributes e)(''aria-hidden'' \<mapsto> ''true'')\<rparr>)"



text \<open>
  The match of the specification, in its words: the query is a substring of the item's
  lower-cased display text, or a substring of the item's lower-cased \<open>data-source\<close>
  attribute, a missing attribute being the empty string. \<open>sublist q s\<close> says that
  \<open>s = p @ q @ r\<close> for some \<open>p\<close> and \<open>r\<close>.
\<close>

definition spec_match :: "string \<Rightarrow> element \<Rightarrow> bool" where
  "spec_match q e =
     (sublist q (toLowerCase (textContent e))
      \<or> sublist q (toLowerCase (case attributes e ''data-source'' of None \<Rightarrow> [] | Some v \<Rightarrow> v)))"

definition normalizedQuery :: "document \<Rightarrow> addr \<Rightarrow> string" where
  "normalizedQuery d searchInput = trim (toLowerCase (inputValue (d ! searchInput)))"

definition matchCount :: "document \<Rightarrow> addr \<Rightarrow> string \<Rightarrow> nat" where
  "matchCount d allSources q =
     length (filter (\<lambda>b. spec_match q (d ! b)) (querySelectorAllIn allSources ''source-btn'' d))"

text \<open>
  The "no results" message is displayed: the container has one, laid out as a block. It is
  hidden: the container has none, or has one that is not laid out.
\<close>

definition noResultsDisplayed :: "addr \<Rightarrow> document \<Rightarrow> bool" where
  "noResultsDisplayed allSources d =
     (case querySelectorIn allSources ''no-results'' d of
        None \<Rightarrow> False
      | Some m \<Rightarrow> style (d ! m) ''display'' = Some ''block'')"

definition noResultsHidden :: "addr \<Rightarrow> document \<Rightarrow> bool" where
  "noResultsHidden allSources d =
     (case querySelectorIn allSources ''no-results'' d of
        None \<Rightarrow> True
      | Some m \<Rightarrow> style (d ! m) ''display'' = Some ''none'')"

text \<open>
  The timers that will run a filter pass; the one such timer that the wrapper holds, due at
  time \<open>T\<close>; and one millisecond of the event loop.
\<close>

definition isFilter :: "timer \<Rightarrow> bool" where
  "isFilter t = (job t = FilterTask)"

definition pendingAt :: "nat \<Rightarrow> state \<Rightarrow> bool" where
  "pendingAt T s =
     (case searchTimeout s of
        None \<Rightarrow> False
      | Some i \<Rightarrow> filter isFilter (timers s) = [\<lparr>timerId = i, due = T, job = FilterTask\<rparr>])"

definition tick :: "state \<Rightarrow> state" where
  "tick s = fireDue (s\<lparr>now := Suc (now s)\<rparr>)"

text \<open>
  What one turn of either loop of \<open>initializeActiveFilters\<close> does to its link, as a function
  of the element.
\<close>

definition markElement :: "string \<Rightarrow> element \<Rightarrow> element" where
  "markElement currentPath e =
     (case attributes e ''href'' of
        None \<Rightarrow> e
      | Some href \<Rightarrow>
          if href \<noteq> [] \<and> str_includes currentPath (stripLeadingNonSlash href)
          then e\<lparr>classList := (if ''active'' \<in> set (classList e) then classList e
                                else classList e @ [''active'']),
                 attributes := (attributes e)(''aria-current'' \<mapsto> ''page'')\<rparr>
          else e)"

text \<open>
  The target of a link "after any scheme/host prefix has been stripped", in the words of
  the specification: \<open>scheme://host\<close> or \<open>//host\<close> at the start of the href is dropped, and
  an href with neither is kept as it is.
\<close>

definition spec_stripSchemeHost :: "string \<Rightarrow> string" where
  "spec_stripSchemeHost href =
     (let scheme = takeWhile (\<lambda>c. c \<noteq> CHR '':'' \<and> c \<noteq> CHR ''/'') href;
          rest = dropWhile (\<lambda>c. c \<noteq> CHR '':'' \<and> c \<noteq> CHR ''/'') href
      in if scheme \<noteq> [] \<and> prefix ''://'' rest then dropWhile (\<lambda>c. c \<noteq> CHR ''/'') (drop 3 rest)
         else if prefix ''//'' href then dropWhile (\<lambda>c. c \<noteq> CHR ''/'') (drop 2 href)
         else href)"


text \<open>
  The label encloses none of the other three elements of the toggle: writing the label's
  text then removes none of them from the document.
\<close>

definition labelApart :: "document \<Rightarrow> bool" where
  "labelApart d =
     (case querySelector ''toggle-text'' d of
        None \<Rightarrow> True
      | Some tt \<Rightarrow>
          list_all (\<lambda>x. case x of None \<Rightarrow> True | Some a \<Rightarrow> a \<notin> set (descendants tt d))
            [getElementById ''sources-content'' d, querySelector ''toggle-sources'' d,
             querySelector ''toggle-icon'' d])"

section \<open>Sample pages\<close>

text \<open>
  The markup that the script expects: a toggle with its label and icon, the panel with the
  search field and the container of three source links, and one category link.
\<close>

definition pageElement ::
  "string \<Rightarrow> string option \<Rightarrow> string list \<Rightarrow> (string \<rightharpoonup> string) \<Rightarrow> string \<Rightarrow> addr list \<Rightarrow> element" where
  "pageElement t i cs as txt anc =
     \<lparr>tagName = t, ident = i, classList = cs, attributes = as, style = Map.empty,
      textContent = txt, innerHTML = None, inputValue = [], ancestors = anc,
      isConnected = True\<rparr>"

definition samplePage :: document where
  "samplePage =
     [pageElement ''html'' None [] Map.empty [] [],
      pageElement ''body'' None [] Map.empty [] [0],
      pageElement ''button'' None [''toggle-sources''] Map.empty [] [1, 0],
      pageElement ''span'' None [''toggle-text''] Map.empty ''Show All Sources'' [2, 1, 0],
      pageElement ''span'' None [''toggle-icon''] Map.empty [] [2, 1, 0],
      pageElement ''div'' (Some ''sources-content'') [] Map.empty [] [1, 0],
      pageElement ''input'' (Some ''source-search'') [] Map.empty [] [5, 1, 0],
      pageElement ''div'' None [''all-sources''] Map.empty [] [5, 1, 0],
      pageElement ''a'' None [''source-btn'']
        (Map.empty(''href'' \<mapsto> ''/source/bbc/'', ''data-source'' \<mapsto> ''bbc''))
        ''BBC News'' [7, 5, 1, 0],
      pageElement ''a'' None [''source-btn'']
        (Map.empty(''href'' \<mapsto> ''/source/cnn/'', ''data-source'' \<mapsto> ''cnn''))
        ''CNN'' [7, 5, 1, 0],
      pageElement ''a'' None [''source-btn'']
        (Map.empty(''href'' \<mapsto> ''https://example.com/source/nyt/'', ''data-source'' \<mapsto> ''nyt''))
        ''New York Times'' [7, 5, 1, 0],
      pageElement ''a'' None [''category-btn'']
        (Map.empty(''href'' \<mapsto> ''/category/tech/'')) ''Tech'' [1, 0]]"

definition sampleState :: state where
  "sampleState =
     \<lparr>doc = samplePage, pathname = ''/source/bbc/'', pageYOffset = 0, activeElement = None,
      console = [], now = 0, timers = [], nextTimer = 1, searchTimeout = None,
      watchers = [], frames = [], taskLog = []\<rparr>"

definition loadedState :: state where
  "loadedState = domContentLoaded sampleState"

text \<open>A page whose label reads otherwise, after the initializer has run.\<close>

definition labelledState :: state where
  "labelledState =
     sampleState\<lparr>doc := setTextContent 3 ''Browse sources'' (initializeFilterNav samplePage)\<rparr>"

text \<open>A page with none of the elements that the script looks for.\<close>

definition barePage :: document where
  "barePage = take 2 samplePage"

text \<open>The sample page with a value typed into the search field.\<close>

definition searchPage :: "string \<Rightarrow> document" where
  "searchPage v = setValue 6 v samplePage"

text \<open>
  A small page: the search field, the container and one source link. Two filter passes
  on it: the field reads "zzz" at the first and "qqq" at the second, and the link matches
  neither.
\<close>

definition tinyPage :: "string \<Rightarrow> document" where
  "tinyPage v =
     [(pageElement ''input'' (Some ''source-search'') [] Map.empty [] [])\<lparr>inputValue := v\<rparr>,
      pageElement ''div'' None [''all-sources''] Map.empty [] [],
      pageElement ''a'' None [''source-btn''] (Map.empty(''data-source'' \<mapsto> ''bbc'')) ''BBC'' [1]]"

definition stalePage :: document where
  "stalePage = originalFilterSources (setValue 0 ''qqq'' (originalFilterSources (tinyPage ''zzz'')))"


text \<open>A page with a single category link whose href is empty.\<close>

definition emptyHrefPage :: document where
  "emptyHrefPage = [pageElement ''a'' None [''category-btn''] (Map.empty(''href'' \<mapsto> [])) ''Home'' []]"

text \<open>
  The sample page with the icon inside the label, after the initializer has run; and a
  page whose only source link also carries the class of the "no results" message.
\<close>

definition nestedIconState :: state where
  "nestedIconState =
     sampleState\<lparr>doc := initializeFilterNav
        (modify 4 (\<lambda>e. e\<lparr>ancestors := [3, 2, 1, 0]\<rparr>) samplePage)\<rparr>"



section \<open>Facts about the document operations\<close>

lemma find_upt_cong:
  "(\<And>a. a < n \<Longrightarrow> P a = Q a) \<Longrightarrow> find P [0..<n] = find Q [0..<n]"
  by (rule find_cong) auto

lemma filter_upt_cong:
  "(\<And>a. a < n \<Longrightarrow> P a = Q a) \<Longrightarrow> filter P [0..<n] = filter Q [0..<n]"
  by (rule filter_cong) auto

lemma find_append:
  "find P (xs @ ys) = (case find P xs of Some x \<Rightarrow> Some x | None \<Rightarrow> find P ys)"
  by (induction xs) auto

lemma find_upt_Suc:
  "find P [0..<Suc n] = (case find P [0..<n] of Some a \<Rightarrow> Some a | None \<Rightarrow> if P n then Some n else None)"
  by (simp add: find_append split: option.splits)

lemma find_upt_SomeD:
  "find P [0..<n] = Some a \<Longrightarrow> a < n \<and> P a"
  by (auto simp: find_Some_iff)

lemma find_upt_None: "find P [0..<n] = None \<longleftrightarrow> (\<forall>a<n. \<not> P a)"
  by (auto simp: find_None_iff)

text \<open>A narrower test finds the same first element, when that element still passes.\<close>

lemma find_upt_shrink:
  assumes "find P [0..<n] = Some x" and "Q x" and "\<And>b. b < n \<Longrightarrow> Q b \<Longrightarrow> P b"
  shows "find Q [0..<n] = Some x"
proof -
  from assms(1) have x: "x < n" "P x" "\<forall>j<x. \<not> P j"
    by (auto simp: find_Some_iff)
  have "\<forall>j<x. \<not> Q j" using x assms(3) by (meson less_trans)
  with x assms(2) show ?thesis
    by (auto simp: find_Some_iff intro!: exI [of _ x])
qed

lemma find_upt_shrink_None:
  assumes "find P [0..<n] = None" and "\<And>b. b < n \<Longrightarrow> Q b \<Longrightarrow> P b"
  shows "find Q [0..<n] = None"
  using assms by (auto simp: find_None_iff)

lemma length_modify [simp]: "length (modify a f d) = length d"
  by (simp add: modify_def)

lemma nth_modify: "b < length d \<Longrightarrow> modify a f d ! b = (if b = a then f (d ! a) else d ! b)"
  by (simp add: modify_def)

lemma nth_modify_same [simp]: "a < length d \<Longrightarrow> modify a f d ! a = f (d ! a)"
  by (simp add: modify_def)

lemma nth_modify_other [simp]: "b \<noteq> a \<Longrightarrow> modify a f d ! b = d ! b"
  by (simp add: modify_def)

lemma modify_out_of_range [simp]: "length d \<le> a \<Longrightarrow> modify a f d = d"
  unfolding modify_def by (rule list_update_beyond)

lemma field_modify:
  assumes "\<And>e. F (f e) = F e"
  shows "F (modify a f d ! b) = F (d ! b)"
  by (cases "a < length d"; cases "b = a"; simp add: assms)

lemma getElementById_modify:
  "(\<And>e. ident (f e) = ident e) \<Longrightarrow> (\<And>e. isConnected (f e) = isConnected e) \<Longrightarrow>
   getElementById i (modify a f d) = getElementById i d"
  unfolding getElementById_def length_modify
  by (rule find_upt_cong) (simp add: nth_modify)

lemma querySelector_modify:
  "(\<And>e. hasClass c (f e) = hasClass c e) \<Longrightarrow> (\<And>e. isConnected (f e) = isConnected e) \<Longrightarrow>
   querySelector c (modify a f d) = querySelector c d"
  unfolding querySelector_def length_modify
  by (rule find_upt_cong) (simp add: nth_modify)

lemma querySelectorAll_modify:
  "(\<And>e. hasClass c (f e) = hasClass c e) \<Longrightarrow> (\<And>e. isConnected (f e) = isConnected e) \<Longrightarrow>
   querySelectorAll c (modify a f d) = querySelectorAll c d"
  unfolding querySelectorAll_def length_modify
  by (rule filter_upt_cong) (simp add: nth_modify)

lemma querySelectorIn_modify:
  "(\<And>e. hasClass c (f e) = hasClass c e) \<Longrightarrow> (\<And>e. ancestors (f e) = ancestors e) \<Longrightarrow>
   (\<And>e. isConnected (f e) = isConnected e) \<Longrightarrow>
   querySelectorIn p c (modify a f d) = querySelectorIn p c d"
  unfolding querySelectorIn_def length_modify
  by (rule find_upt_cong) (simp add: nth_modify)

lemma querySelectorAllIn_modify:
  "(\<And>e. hasClass c (f e) = hasClass c e) \<Longrightarrow> (\<And>e. ancestors (f e) = ancestors e) \<Longrightarrow>
   (\<And>e. isConnected (f e) = isConnected e) \<Longrightarrow>
   querySelectorAllIn p c (modify a f d) = querySelectorAllIn p c d"
  unfolding querySelectorAllIn_def length_modify
  by (rule filter_upt_cong) (simp add: nth_modify)

lemma body_modify:
  "(\<And>e. tagName (f e) = tagName e) \<Longrightarrow> (\<And>e. isConnected (f e) = isConnected e) \<Longrightarrow>
   body (modify a f d) = body d"
  unfolding body_def length_modify
  by (rule find_upt_cong) (simp add: nth_modify)

lemma descendants_cong:
  "length d' = length d \<Longrightarrow> (\<And>b. b < length d \<Longrightarrow> ancestors (d' ! b) = ancestors (d ! b)) \<Longrightarrow>
   descendants a d' = descendants a d"
proof -
  assume l: "length d' = length d" and o: "\<And>b. b < length d \<Longrightarrow> ancestors (d' ! b) = ancestors (d ! b)"
  show ?thesis
    unfolding descendants_def l by (rule filter_upt_cong) (simp add: o)
qed

lemma descendants_modify:
  "(\<And>e. ancestors (f e) = ancestors e) \<Longrightarrow> descendants a (modify b f d) = descendants a d"
  by (rule descendants_cong) (simp_all add: field_modify [where F = ancestors])

lemma getElementById_SomeD:
  "getElementById i d = Some a \<Longrightarrow> a < length d \<and> ident (d ! a) = Some i \<and> isConnected (d ! a)"
  unfolding getElementById_def by (drule find_upt_SomeD) simp

lemma querySelector_SomeD:
  "querySelector c d = Some a \<Longrightarrow> a < length d \<and> hasClass c (d ! a) \<and> isConnected (d ! a)"
  unfolding querySelector_def by (drule find_upt_SomeD) simp

lemma querySelectorIn_SomeD:
  "querySelectorIn p c d = Some a \<Longrightarrow>
   a < length d \<and> hasClass c (d ! a) \<and> p \<in> set (ancestors (d ! a)) \<and> isConnected (d ! a)"
  unfolding querySelectorIn_def by (drule find_upt_SomeD) simp

lemma set_querySelectorAll:
  "set (querySelectorAll c d) = {a. a < length d \<and> isConnected (d ! a) \<and> hasClass c (d ! a)}"
  by (auto simp: querySelectorAll_def)


lemma distinct_querySelectorAll [simp]: "distinct (querySelectorAll c d)"
  by (simp add: querySelectorAll_def)

lemma distinct_querySelectorAllIn [simp]: "distinct (querySelectorAllIn p c d)"
  by (simp add: querySelectorAllIn_def)

lemma distinct_descendants [simp]: "distinct (descendants a d)"
  by (simp add: descendants_def)

lemma set_descendants:
  "set (descendants a d) = {b. b < length d \<and> b \<noteq> a \<and> a \<in> set (ancestors (d ! b))}"
  by (auto simp: descendants_def)

lemma self_not_descendant [simp]: "a \<notin> set (descendants a d)"
  by (simp add: set_descendants)

subsection \<open>Queries after a write in place\<close>

lemmas write_defs = setAttribute_def removeAttribute_def setStyle_def classListAdd_def
  classListRemove_def setValue_def

lemma length_writes [simp]:
  "length (setAttribute a n v d) = length d"
  "length (removeAttribute a n d) = length d"
  "length (setStyle a n v d) = length d"
  "length (classListAdd a c d) = length d"
  "length (classListRemove a c d) = length d"
  "length (setValue a t d) = length d"
  by (simp_all add: write_defs)

lemma getElementById_writes [simp]:
  "getElementById i (setAttribute a n v d) = getElementById i d"
  "getElementById i (removeAttribute a n d) = getElementById i d"
  "getElementById i (setStyle a n v d) = getElementById i d"
  "getElementById i (classListAdd a c d) = getElementById i d"
  "getElementById i (classListRemove a c d) = getElementById i d"
  "getElementById i (setValue a t d) = getElementById i d"
  by (simp_all add: write_defs getElementById_modify)

lemma querySelector_writes [simp]:
  "querySelector k (setAttribute a n v d) = querySelector k d"
  "querySelector k (removeAttribute a n d) = querySelector k d"
  "querySelector k (setStyle a n v d) = querySelector k d"
  "k \<noteq> c \<Longrightarrow> querySelector k (classListAdd a c d) = querySelector k d"
  "k \<noteq> c \<Longrightarrow> querySelector k (classListRemove a c d) = querySelector k d"
  "querySelector k (setValue a t d) = querySelector k d"
  by (simp_all add: write_defs querySelector_modify hasClass_def)

lemma querySelectorAll_writes [simp]:
  "querySelectorAll k (setAttribute a n v d) = querySelectorAll k d"
  "querySelectorAll k (removeAttribute a n d) = querySelectorAll k d"
  "querySelectorAll k (setStyle a n v d) = querySelectorAll k d"
  "k \<noteq> c \<Longrightarrow> querySelectorAll k (classListAdd a c d) = querySelectorAll k d"
  "k \<noteq> c \<Longrightarrow> querySelectorAll k (classListRemove a c d) = querySelectorAll k d"
  "querySelectorAll k (setValue a t d) = querySelectorAll k d"
  by (simp_all add: write_defs querySelectorAll_modify hasClass_def)

lemma querySelectorIn_writes [simp]:
  "querySelectorIn p k (setAttribute a n v d) = querySelectorIn p k d"
  "querySelectorIn p k (removeAttribute a n d) = querySelectorIn p k d"
  "querySelectorIn p k (setStyle a n v d) = querySelectorIn p k d"
  "k \<noteq> c \<Longrightarrow> querySelectorIn p k (classListAdd a c d) = querySelectorIn p k d"
  "k \<noteq> c \<Longrightarrow> querySelectorIn p k (classListRemove a c d) = querySelectorIn p k d"
  "querySelectorIn p k (setValue a t d) = querySelectorIn p k d"
  by (simp_all add: write_defs querySelectorIn_modify hasClass_def)

lemma querySelectorAllIn_writes [simp]:
  "querySelectorAllIn p k (setAttribute a n v d) = querySelectorAllIn p k d"
  "querySelectorAllIn p k (removeAttribute a n d) = querySelectorAllIn p k d"
  "querySelectorAllIn p k (setStyle a n v d) = querySelectorAllIn p k d"
  "k \<noteq> c \<Longrightarrow> querySelectorAllIn p k (classListAdd a c d) = querySelectorAllIn p k d"
  "k \<noteq> c \<Longrightarrow> querySelectorAllIn p k (classListRemove a c d) = querySelectorAllIn p k d"
  "querySelectorAllIn p k (setValue a t d) = querySelectorAllIn p k d"
  by (simp_all add: write_defs querySelectorAllIn_modify hasClass_def)

lemma body_writes [simp]:
  "body (setAttribute a n v d) = body d"
  "body (removeAttribute a n d) = body d"
  "body (setStyle a n v d) = body d"
  "body (classListAdd a c d) = body d"
  "body (classListRemove a c d) = body d"
  "body (setValue a t d) = body d"
  by (simp_all add: write_defs body_modify)

lemma descendants_writes [simp]:
  "descendants x (setAttribute a n v d) = descendants x d"
  "descendants x (removeAttribute a n d) = descendants x d"
  "descendants x (setStyle a n v d) = descendants x d"
  "descendants x (classListAdd a c d) = descendants x d"
  "descendants x (classListRemove a c d) = descendants x d"
  "descendants x (setValue a t d) = descendants x d"
  by (simp_all add: write_defs descendants_modify)

subsection \<open>Fields after a write in place\<close>

lemma getAttribute_setAttribute:
  "getAttribute b m (setAttribute a n v d) =
     (if b = a \<and> a < length d \<and> m = n then Some v else getAttribute b m d)"
  by (cases "a < length d"; cases "b = a") (auto simp: getAttribute_def setAttribute_def)

lemma getAttribute_other_writes [simp]:
  "getAttribute b m (setStyle a n v d) = getAttribute b m d"
  "getAttribute b m (classListAdd a c d) = getAttribute b m d"
  "getAttribute b m (classListRemove a c d) = getAttribute b m d"
  "getAttribute b m (setValue a t d) = getAttribute b m d"
  by (simp_all add: getAttribute_def write_defs field_modify [where F = attributes])

lemma textContent_other_writes [simp]:
  "textContent (setAttribute a n v d ! b) = textContent (d ! b)"
  "textContent (removeAttribute a n d ! b) = textContent (d ! b)"
  "textContent (setStyle a n v d ! b) = textContent (d ! b)"
  "textContent (classListAdd a c d ! b) = textContent (d ! b)"
  "textContent (classListRemove a c d ! b) = textContent (d ! b)"
  "textContent (setValue a t d ! b) = textContent (d ! b)"
  by (simp_all add: write_defs field_modify [where F = textContent])

lemma isConnected_writes [simp]:
  "isConnected (setAttribute a n v d ! b) = isConnected (d ! b)"
  "isConnected (removeAttribute a n d ! b) = isConnected (d ! b)"
  "isConnected (setStyle a n v d ! b) = isConnected (d ! b)"
  "isConnected (classListAdd a c d ! b) = isConnected (d ! b)"
  "isConnected (classListRemove a c d ! b) = isConnected (d ! b)"
  "isConnected (setValue a t d ! b) = isConnected (d ! b)"
  by (simp_all add: write_defs field_modify [where F = isConnected])

subsection \<open>A fold of writes in place\<close>

lemma modify_modify: "modify a g (modify a f d) = modify a (\<lambda>e. g (f e)) d"
  by (cases "a < length d") (simp_all add: modify_def list_update_beyond)

lemma length_fold_modify [simp]: "length (fold (\<lambda>b. modify b f) bs d) = length d"
  by (induction bs arbitrary: d) simp_all

lemma nth_fold_modify:
  "distinct bs \<Longrightarrow> b < length d \<Longrightarrow>
   fold (\<lambda>b. modify b f) bs d ! b = (if b \<in> set bs then f (d ! b) else d ! b)"
proof (induction bs arbitrary: d)
  case Nil
  then show ?case by simp
next
  case (Cons a bs)
  then show ?case by (auto simp: nth_modify)
qed

lemma field_fold_modify:
  assumes "\<And>e. F (f e) = F e"
  shows "F (fold (\<lambda>b. modify b f) bs d ! b) = F (d ! b)"
  by (induction bs arbitrary: d) (simp_all add: field_modify [where F = F] assms)



lemma querySelectorAll_fold_modify:
  "(\<And>e. hasClass c (f e) = hasClass c e) \<Longrightarrow> (\<And>e. isConnected (f e) = isConnected e) \<Longrightarrow>
   querySelectorAll c (fold (\<lambda>b. modify b f) bs d) = querySelectorAll c d"
  by (induction bs arbitrary: d) (simp_all add: querySelectorAll_modify)


lemma body_fold_modify:
  "(\<And>e. tagName (f e) = tagName e) \<Longrightarrow> (\<And>e. isConnected (f e) = isConnected e) \<Longrightarrow>
   body (fold (\<lambda>b. modify b f) bs d) = body d"
  by (induction bs arbitrary: d) (simp_all add: body_modify)

subsection \<open>The text write\<close>

lemma length_removeChildren [simp]: "length (removeChildren a d) = length d"
  by (simp add: removeChildren_def)

lemma length_setTextContent [simp]: "length (setTextContent a t d) = length d"
  by (simp add: setTextContent_def)

lemma field_setTextContent:
  assumes "\<And>e. F (e\<lparr>isConnected := False\<rparr>) = F e"
    and "\<And>e. F (e\<lparr>textContent := t, innerHTML := None\<rparr>) = F e"
  shows "F (setTextContent a t d ! b) = F (d ! b)"
proof -
  have "F (modify a (\<lambda>e. e\<lparr>textContent := t, innerHTML := None\<rparr>) (removeChildren a d) ! b)
      = F (removeChildren a d ! b)"
    by (rule field_modify) (rule assms(2))
  also have "\<dots> = F (d ! b)"
    unfolding removeChildren_def by (rule field_fold_modify) (rule assms(1))
  finally show ?thesis by (simp add: setTextContent_def)
qed

lemma fields_setTextContent [simp]:
  "ident (setTextContent a t d ! b) = ident (d ! b)"
  "classList (setTextContent a t d ! b) = classList (d ! b)"
  "attributes (setTextContent a t d ! b) = attributes (d ! b)"
  "style (setTextContent a t d ! b) = style (d ! b)"
  "inputValue (setTextContent a t d ! b) = inputValue (d ! b)"
  "ancestors (setTextContent a t d ! b) = ancestors (d ! b)"
  "tagName (setTextContent a t d ! b) = tagName (d ! b)"
  by (rule field_setTextContent; simp)+

lemma hasClass_setTextContent [simp]:
  "hasClass k (setTextContent a t d ! b) = hasClass k (d ! b)"
  by (simp add: hasClass_def)

lemma getAttribute_setTextContent [simp]:
  "getAttribute b m (setTextContent a t d) = getAttribute b m d"
  by (simp add: getAttribute_def)

lemma descendants_setTextContent [simp]:
  "descendants x (setTextContent a t d) = descendants x d"
  by (rule descendants_cong) simp_all

lemma textContent_setTextContent:
  "textContent (setTextContent a t d ! b) = (if b = a \<and> a < length d then t else textContent (d ! b))"
proof (cases "a < length d")
  case False
  then show ?thesis by (simp add: setTextContent_def)
next
  case True
  show ?thesis
  proof (cases "b = a")
    case True
    with \<open>a < length d\<close> show ?thesis by (simp add: setTextContent_def removeChildren_def
      field_fold_modify [where F = textContent])
  next
    case False
    then show ?thesis
      by (simp add: setTextContent_def removeChildren_def field_fold_modify [where F = textContent])
  qed
qed

lemma isConnected_setTextContent:
  assumes "a < length d" "b < length d"
  shows "isConnected (setTextContent a t d ! b) \<longleftrightarrow> isConnected (d ! b) \<and> b \<notin> set (descendants a d)"
proof -
  have "isConnected (setTextContent a t d ! b) = isConnected (removeChildren a d ! b)"
    using assms(1) by (simp add: setTextContent_def field_modify [where F = isConnected])
  also have "\<dots> \<longleftrightarrow> isConnected (d ! b) \<and> b \<notin> set (descendants a d)"
    using assms(2) by (simp add: removeChildren_def nth_fold_modify)
  finally show ?thesis .
qed

text \<open>
  An element that is not below the one written stays where a query finds it; a query that
  found nothing finds nothing.
\<close>

lemma getElementById_setTextContent:
  assumes "getElementById i d = Some x" "x \<notin> set (descendants a d)"
  shows "getElementById i (setTextContent a t d) = Some x"
proof (cases "a < length d")
  case False
  then show ?thesis using assms by (simp add: setTextContent_def)
next
  case True
  from assms(1) have x: "x < length d" "ident (d ! x) = Some i" "isConnected (d ! x)"
    by (auto dest: getElementById_SomeD)
  show ?thesis
    unfolding getElementById_def length_setTextContent
  proof (rule find_upt_shrink)
    show "find (\<lambda>a. isConnected (d ! a) \<and> ident (d ! a) = Some i) [0..<length d] = Some x"
      using assms(1) by (simp add: getElementById_def)
    show "isConnected (setTextContent a t d ! x) \<and> ident (setTextContent a t d ! x) = Some i"
      using x assms(2) True by (simp add: isConnected_setTextContent)
    show "isConnected (d ! b) \<and> ident (d ! b) = Some i"
      if "b < length d" "isConnected (setTextContent a t d ! b) \<and> ident (setTextContent a t d ! b) = Some i"
      for b using that True by (simp add: isConnected_setTextContent)
  qed
qed

lemma querySelector_setTextContent:
  assumes "querySelector c d = Some x" "x \<notin> set (descendants a d)"
  shows "querySelector c (setTextContent a t d) = Some x"
proof (cases "a < length d")
  case False
  then show ?thesis using assms by (simp add: setTextContent_def)
next
  case True
  from assms(1) have x: "x < length d" "hasClass c (d ! x)" "isConnected (d ! x)"
    by (auto dest: querySelector_SomeD)
  show ?thesis
    unfolding querySelector_def length_setTextContent
  proof (rule find_upt_shrink)
    show "find (\<lambda>a. isConnected (d ! a) \<and> hasClass c (d ! a)) [0..<length d] = Some x"
      using assms(1) by (simp add: querySelector_def)
    show "isConnected (setTextContent a t d ! x) \<and> hasClass c (setTextContent a t d ! x)"
      using x assms(2) True by (simp add: isConnected_setTextContent)
    show "isConnected (d ! b) \<and> hasClass c (d ! b)"
      if "b < length d" "isConnected (setTextContent a t d ! b) \<and> hasClass c (setTextContent a t d ! b)"
      for b using that True by (simp add: isConnected_setTextContent)
  qed
qed

lemma getElementById_setTextContent_None:
  assumes "getElementById i d = None"
  shows "getElementById i (setTextContent a t d) = None"
proof (cases "a < length d")
  case False
  then show ?thesis using assms by (simp add: setTextContent_def)
next
  case True
  show ?thesis
    unfolding getElementById_def length_setTextContent
  proof (rule find_upt_shrink_None)
    show "find (\<lambda>a. isConnected (d ! a) \<and> ident (d ! a) = Some i) [0..<length d] = None"
      using assms by (simp add: getElementById_def)
    show "isConnected (d ! b) \<and> ident (d ! b) = Some i"
      if "b < length d" "isConnected (setTextContent a t d ! b) \<and> ident (setTextContent a t d ! b) = Some i"
      for b using that True by (simp add: isConnected_setTextContent)
  qed
qed

lemma querySelector_setTextContent_None:
  assumes "querySelector c d = None"
  shows "querySelector c (setTextContent a t d) = None"
proof (cases "a < length d")
  case False
  then show ?thesis using assms by (simp add: setTextContent_def)
next
  case True
  show ?thesis
    unfolding querySelector_def length_setTextContent
  proof (rule find_upt_shrink_None)
    show "find (\<lambda>a. isConnected (d ! a) \<and> hasClass c (d ! a)) [0..<length d] = None"
      using assms by (simp add: querySelector_def)
    show "isConnected (d ! b) \<and> hasClass c (d ! b)"
      if "b < length d" "isConnected (setTextContent a t d ! b) \<and> hasClass c (setTextContent a t d ! b)"
      for b using that True by (simp add: isConnected_setTextContent)
  qed
qed

subsection \<open>The filter loop as a fold of writes\<close>

lemma filterButton_modify:
  "filterButton t b (d, n) = (modify b (showHide t) d, n + (if isVisible t (d ! b) then 1 else 0))"
  by (simp add: filterButton_def showHide_def setStyle_def removeAttribute_def setAttribute_def
      modify_modify) (simp add: modify_def showHide_def)

lemma isVisible_showHide [simp]: "isVisible t (showHide t e) = isVisible t e"
  by (simp add: isVisible_def showHide_def)

lemma fold_filterButton:
  "distinct bs \<Longrightarrow>
   fold (filterButton t) bs (d, n) =
     (fold (\<lambda>b. modify b (showHide t)) bs d, n + length (filter (\<lambda>b. isVisible t (d ! b)) bs))"
proof (induction bs arbitrary: d n)
  case Nil
  then show ?case by simp
next
  case (Cons a bs)
  have ne: "\<And>x. x \<in> set bs \<Longrightarrow> x \<noteq> a" using Cons.prems by auto
  have "filter (\<lambda>b. isVisible t (modify a (showHide t) d ! b)) bs = filter (\<lambda>b. isVisible t (d ! b)) bs"
    by (rule filter_cong) (simp_all add: ne)
  with Cons show ?case by (simp add: filterButton_modify)
qed

lemma showHide_frame [simp]:
  "ident (showHide t e) = ident e" "hasClass c (showHide t e) = hasClass c e"
  "ancestors (showHide t e) = ancestors e" "tagName (showHide t e) = tagName e"
  "textContent (showHide t e) = textContent e" "inputValue (showHide t e) = inputValue e"
  "innerHTML (showHide t e) = innerHTML e" "isConnected (showHide t e) = isConnected e"
  by (simp_all add: showHide_def hasClass_def)

subsection \<open>Queries after an append\<close>

lemma length_appendChild [simp]: "length (appendChild p e d) = Suc (length d)"
  by (simp add: appendChild_def)

lemma length_appendToBody [simp]: "length (appendToBody e d) = Suc (length d)"
  by (simp add: appendToBody_def split: option.splits)

lemma nth_appendChild_old [simp]: "b < length d \<Longrightarrow> appendChild p e d ! b = d ! b"
  by (simp add: appendChild_def nth_append)

lemma nth_appendToBody_old [simp]: "b < length d \<Longrightarrow> appendToBody e d ! b = d ! b"
  by (simp add: appendToBody_def appendChild_def nth_append split: option.splits)

lemma nth_appendChild_new [simp]:
  "appendChild p e d ! length d = e\<lparr>ancestors := p # ancestors (d ! p), isConnected := True\<rparr>"
  by (simp add: appendChild_def)

lemma nth_appendToBody_new:
  "ident (appendToBody e d ! length d) = ident e"
  "classList (appendToBody e d ! length d) = classList e"
  "attributes (appendToBody e d ! length d) = attributes e"
  "style (appendToBody e d ! length d) = style e"
  "textContent (appendToBody e d ! length d) = textContent e"
  "innerHTML (appendToBody e d ! length d) = innerHTML e"
  "isConnected (appendToBody e d ! length d)"
  by (simp_all add: appendToBody_def appendChild_def split: option.splits)

lemma getElementById_append:
  "length d' = Suc (length d) \<Longrightarrow> (\<And>a. a < length d \<Longrightarrow> d' ! a = d ! a) \<Longrightarrow>
   getElementById i d' =
     (case getElementById i d of Some a \<Rightarrow> Some a
      | None \<Rightarrow> if isConnected (d' ! length d) \<and> ident (d' ! length d) = Some i
                then Some (length d) else None)"
proof -
  assume l: "length d' = Suc (length d)" and o: "\<And>a. a < length d \<Longrightarrow> d' ! a = d ! a"
  have "find (\<lambda>a. isConnected (d' ! a) \<and> ident (d' ! a) = Some i) [0..<length d]
      = find (\<lambda>a. isConnected (d ! a) \<and> ident (d ! a) = Some i) [0..<length d]"
    by (rule find_upt_cong) (simp add: o)
  then show ?thesis
    unfolding getElementById_def l find_upt_Suc by simp
qed


lemma querySelectorIn_append:
  "length d' = Suc (length d) \<Longrightarrow> (\<And>a. a < length d \<Longrightarrow> d' ! a = d ! a) \<Longrightarrow>
   querySelectorIn p c d' =
     (case querySelectorIn p c d of Some a \<Rightarrow> Some a
      | None \<Rightarrow> if isConnected (d' ! length d) \<and> hasClass c (d' ! length d)
                   \<and> p \<in> set (ancestors (d' ! length d))
                then Some (length d) else None)"
proof -
  assume l: "length d' = Suc (length d)" and o: "\<And>a. a < length d \<Longrightarrow> d' ! a = d ! a"
  have "find (\<lambda>a. isConnected (d' ! a) \<and> hasClass c (d' ! a) \<and> p \<in> set (ancestors (d' ! a)))
          [0..<length d]
      = find (\<lambda>a. isConnected (d ! a) \<and> hasClass c (d ! a) \<and> p \<in> set (ancestors (d ! a)))
          [0..<length d]"
    by (rule find_upt_cong) (simp add: o)
  then show ?thesis
    unfolding querySelectorIn_def l find_upt_Suc by simp
qed

lemma hasClass_classListAdd:
  "a < length d \<Longrightarrow> hasClass c (classListAdd a c d ! a)"
  by (simp add: classListAdd_def modify_def hasClass_def)

lemma hasClass_classListRemove:
  "a < length d \<Longrightarrow> \<not> hasClass c (classListRemove a c d ! a)"
  by (simp add: classListRemove_def modify_def hasClass_def)


section \<open>The back-to-top control\<close>

text \<open>
  Claim C8. The frame callback of a scroll listener leaves its back-to-top button with the
  class \<open>show\<close> if and only if the vertical scroll offset it reads is strictly above 300.
  So the button is not shown at offset 299, shown at 301, and not shown again at 0.
\<close>

theorem backToTop_shown_iff:
  assumes "backToTop (watchers s ! i) < length (doc s)"
  shows "hasClass ''show'' (doc (frameCallback i s) ! backToTop (watchers s ! i))
           \<longleftrightarrow> pageYOffset s > 300"
  using assms
  by (simp add: frameCallback_def Let_def hasClass_classListAdd hasClass_classListRemove)

theorem backToTop_shown_iff_witness:
  "backToTop (watchers (scrollEvent 299 loadedState) ! 0) < length (doc (scrollEvent 299 loadedState))
   \<and> \<not> hasClass ''show'' (doc (frameCallback 0 (scrollEvent 299 loadedState)) ! 12)
   \<and> hasClass ''show'' (doc (frameCallback 0 (scrollEvent 301 loadedState)) ! 12)
   \<and> \<not> hasClass ''show''
         (doc (frameCallback 0 (scrollEvent 0 (animationFrame (scrollEvent 301 loadedState)))) ! 12)"
proof -
  let ?a = "scrollEvent 299 loadedState"
  let ?b = "scrollEvent 301 loadedState"
  let ?c = "scrollEvent 0 (animationFrame (scrollEvent 301 loadedState))"
  have ha: "backToTop (watchers ?a ! 0) < length (doc ?a)" by code_simp
  have hb: "backToTop (watchers ?b ! 0) < length (doc ?b)" by code_simp
  have hc: "backToTop (watchers ?c ! 0) < length (doc ?c)" by code_simp
  have wa: "backToTop (watchers ?a ! 0) = 12" by code_simp
  have wb: "backToTop (watchers ?b ! 0) = 12" by code_simp
  have wc: "backToTop (watchers ?c ! 0) = 12" by code_simp
  have ya: "pageYOffset ?a = 299" by code_simp
  have yb: "pageYOffset ?b = 301" by code_simp
  have yc: "pageYOffset ?c = 0" by code_simp
  show ?thesis
    using ha backToTop_shown_iff [OF ha] backToTop_shown_iff [OF hb] backToTop_shown_iff [OF hc]
    by (simp add: wa wb wc ya yb yc)
qed

section \<open>The sources panel\<close>



lemma toggle_absent:
  assumes "getElementById ''sources-content'' (doc s) = None
    \<or> querySelector ''toggle-sources'' (doc s) = None
    \<or> querySelector ''toggle-text'' (doc s) = None
    \<or> querySelector ''toggle-icon'' (doc s) = None"
  shows "toggleSourcesSection s = s\<lparr>console := console s @ [''toggleSourcesSection called'']\<rparr>"
  using assms
  by (auto simp add: toggleSourcesSection_def Let_def split: option.splits)

lemma toggle_doc:
  assumes "getElementById ''sources-content'' (doc s) = Some sc"
    "querySelector ''toggle-sources'' (doc s) = Some tb"
    "querySelector ''toggle-text'' (doc s) = Some tt"
    "querySelector ''toggle-icon'' (doc s) = Some ti"
  shows "doc (toggleSourcesSection s) =
     (if getAttribute tb ''aria-expanded'' (doc s) = Some ''true''
      then collapse sc tb tt (doc s) else expand sc tb tt (doc s))"
  using assms
  by (simp add: toggleSourcesSection_def Let_def setTimeout_def split: option.splits)

text \<open>What \<open>collapse\<close> and \<open>expand\<close> leave behind.\<close>

lemma length_collapse_expand [simp]:
  "length (collapse sc tb tt d) = length d" "length (expand sc tb tt d) = length d"
  by (simp_all add: collapse_def expand_def)

lemma descendants_collapse_expand [simp]:
  "descendants x (collapse sc tb tt d) = descendants x d"
  "descendants x (expand sc tb tt d) = descendants x d"
  by (simp_all add: collapse_def expand_def)

lemma attrs_collapse:
  assumes "sc < length d" "tb < length d"
  shows "getAttribute tb ''aria-expanded'' (collapse sc tb tt d) = Some ''false''"
    and "getAttribute sc ''aria-hidden'' (collapse sc tb tt d) = Some ''true''"
  using assms by (simp_all add: collapse_def getAttribute_setAttribute)

lemma attrs_expand:
  assumes "sc < length d" "tb < length d"
  shows "getAttribute tb ''aria-expanded'' (expand sc tb tt d) = Some ''true''"
    and "getAttribute sc ''aria-hidden'' (expand sc tb tt d) = Some ''false''"
  using assms by (simp_all add: expand_def getAttribute_setAttribute)

lemma text_collapse_expand:
  assumes "tt < length d"
  shows "textContent (collapse sc tb tt d ! tt) = ''Show All Sources''"
    and "textContent (expand sc tb tt d ! tt) = ''Hide All Sources''"
  using assms by (simp_all add: collapse_def expand_def textContent_setTextContent)

lemma getElementById_collapse_expand:
  assumes "getElementById i d = Some x" "x \<notin> set (descendants tt d)"
  shows "getElementById i (collapse sc tb tt d) = Some x"
    and "getElementById i (expand sc tb tt d) = Some x"
  unfolding collapse_def expand_def
  by (rule getElementById_setTextContent; simp add: assms)+

lemma querySelector_collapse_expand:
  assumes "querySelector k d = Some x" "x \<notin> set (descendants tt d)" "k \<noteq> ''show''"
  shows "querySelector k (collapse sc tb tt d) = Some x"
    and "querySelector k (expand sc tb tt d) = Some x"
  unfolding collapse_def expand_def
  by (rule querySelector_setTextContent; simp add: assms)+



lemma toggle_found_again:
  assumes p: "getElementById ''sources-content'' (doc s) = Some sc"
    "querySelector ''toggle-sources'' (doc s) = Some tb"
    "querySelector ''toggle-text'' (doc s) = Some tt"
    "querySelector ''toggle-icon'' (doc s) = Some ti"
  shows "sc \<notin> set (descendants tt (doc s)) \<Longrightarrow>
           getElementById ''sources-content'' (doc (toggleSourcesSection s)) = Some sc"
    and "tb \<notin> set (descendants tt (doc s)) \<Longrightarrow>
           querySelector ''toggle-sources'' (doc (toggleSourcesSection s)) = Some tb"
    and "querySelector ''toggle-text'' (doc (toggleSourcesSection s)) = Some tt"
    and "ti \<notin> set (descendants tt (doc s)) \<Longrightarrow>
           querySelector ''toggle-icon'' (doc (toggleSourcesSection s)) = Some ti"
    and "descendants tt (doc (toggleSourcesSection s)) = descendants tt (doc s)"
  unfolding toggle_doc [OF p]
  by (simp_all add: getElementById_collapse_expand [OF p(1)] querySelector_collapse_expand [OF p(2)]
      querySelector_collapse_expand [OF p(3)] querySelector_collapse_expand [OF p(4)])

lemma labelApartD:
  assumes "labelApart d" "querySelector ''toggle-text'' d = Some tt"
  shows "getElementById ''sources-content'' d = Some sc \<Longrightarrow> sc \<notin> set (descendants tt d)"
    and "querySelector ''toggle-sources'' d = Some tb \<Longrightarrow> tb \<notin> set (descendants tt d)"
    and "querySelector ''toggle-icon'' d = Some ti \<Longrightarrow> ti \<notin> set (descendants tt d)"
  using assms by (simp_all add: labelApart_def)


lemma panelView_toggle:
  assumes p: "getElementById ''sources-content'' (doc s) = Some sc"
    "querySelector ''toggle-sources'' (doc s) = Some tb"
    "querySelector ''toggle-text'' (doc s) = Some tt"
    "querySelector ''toggle-icon'' (doc s) = Some ti"
    and a: "sc \<notin> set (descendants tt (doc s))" "tb \<notin> set (descendants tt (doc s))"
  shows "panelView (doc (toggleSourcesSection s)) =
     (if getAttribute tb ''aria-expanded'' (doc s) = Some ''true'' then collapsedView else expandedView)"
proof -
  from p have r: "sc < length (doc s)" "tb < length (doc s)" "tt < length (doc s)"
    by (auto dest: getElementById_SomeD querySelector_SomeD)
  note f = toggle_found_again(1) [OF p a(1)] toggle_found_again(2) [OF p a(2)]
    toggle_found_again(3) [OF p]
  show ?thesis
    unfolding panelView_def toggleExpanded_def panelHidden_def labelText_def f
    unfolding toggle_doc [OF p]
    by (simp add: attrs_collapse [OF r(1,2)] attrs_expand [OF r(1,2)] text_collapse_expand [OF r(3)]
        collapsedView_def expandedView_def)
qed

text \<open>
  Claim C3, as amended. When the toggle's \<open>aria-expanded\<close>, the panel's \<open>aria-hidden\<close>
  and the label text are those of one of the two states that the toggle operation itself
  produces (expanded: \<open>true\<close>, \<open>false\<close>, "Hide All Sources"; collapsed: \<open>false\<close>,
  \<open>true\<close>, "Show All Sources"), and the label encloses none of the toggle control, the
  panel and the icon, toggling twice returns all three to their original values.
\<close>

theorem toggle_twice_restores:
  assumes v: "panelView (doc s) = expandedView \<or> panelView (doc s) = collapsedView"
    and la: "labelApart (doc s)"
  shows "panelView (doc (toggleSourcesSection (toggleSourcesSection s))) = panelView (doc s)"
proof (cases "querySelector ''toggle-icon'' (doc s)")
  case None
  then show ?thesis by (simp add: toggle_absent)
next
  case (Some ti)
  from v obtain sc tb tt where p: "getElementById ''sources-content'' (doc s) = Some sc"
    "querySelector ''toggle-sources'' (doc s) = Some tb"
    "querySelector ''toggle-text'' (doc s) = Some tt"
    by (auto simp: panelView_def expandedView_def collapsedView_def toggleExpanded_def
        panelHidden_def labelText_def)
  note a = labelApartD(1) [OF la p(3) p(1)] labelApartD(2) [OF la p(3) p(2)]
    labelApartD(3) [OF la p(3) Some]
  let ?s1 = "toggleSourcesSection s"
  have v1: "panelView (doc ?s1) =
     (if getAttribute tb ''aria-expanded'' (doc s) = Some ''true'' then collapsedView else expandedView)"
    by (rule panelView_toggle [OF p Some a(1,2)])
  have q: "getElementById ''sources-content'' (doc ?s1) = Some sc"
    "querySelector ''toggle-sources'' (doc ?s1) = Some tb"
    "querySelector ''toggle-text'' (doc ?s1) = Some tt"
    "querySelector ''toggle-icon'' (doc ?s1) = Some ti"
    by (rule toggle_found_again(1) [OF p Some a(1)] toggle_found_again(2) [OF p Some a(2)]
        toggle_found_again(3) [OF p Some] toggle_found_again(4) [OF p Some a(3)])+
  have a1: "sc \<notin> set (descendants tt (doc ?s1))" "tb \<notin> set (descendants tt (doc ?s1))"
    using a by (simp_all add: toggle_found_again(5) [OF p Some])
  have v2: "panelView (doc (toggleSourcesSection ?s1)) =
     (if getAttribute tb ''aria-expanded'' (doc ?s1) = Some ''true'' then collapsedView else expandedView)"
    by (rule panelView_toggle [OF q a1])
  from v1 p have e1: "getAttribute tb ''aria-expanded'' (doc ?s1) =
     (if getAttribute tb ''aria-expanded'' (doc s) = Some ''true'' then Some ''false'' else Some ''true'')"
    by (auto simp: panelView_def toggleExpanded_def collapsedView_def expandedView_def q split: if_splits)
  from v p have e0: "panelView (doc s) =
     (if getAttribute tb ''aria-expanded'' (doc s) = Some ''true'' then expandedView else collapsedView)"
    by (auto simp: panelView_def toggleExpanded_def collapsedView_def expandedView_def)
  show ?thesis unfolding v2 e1 e0 by simp
qed

theorem toggle_twice_restores_witness:
  "panelView (doc loadedState) = collapsedView
   \<and> labelApart (doc loadedState)
   \<and> panelView (doc (toggleSourcesSection (toggleSourcesSection loadedState))) = collapsedView"
proof -
  have h: "panelView (doc loadedState) = collapsedView" by code_simp
  have l: "labelApart (doc loadedState)" by code_simp
  from h have "panelView (doc loadedState) = expandedView \<or> panelView (doc loadedState) = collapsedView"
    by simp
  from toggle_twice_restores [OF this l] h l show ?thesis by simp
qed

text \<open>
  The claim as stated, for any starting state, fails. A label that reads "Browse sources"
  comes back as "Show All Sources" after two toggles. And on a page whose icon sits inside
  the label, the first toggle, writing the label's text, removes the icon from the
  document; the second toggle then misses the icon and returns at once, so that a panel
  that was collapsed stays expanded.
\<close>

theorem toggle_twice_counterexample:
  "panelView (doc (toggleSourcesSection (toggleSourcesSection labelledState)))
     \<noteq> panelView (doc labelledState)
   \<and> panelView (doc nestedIconState) = collapsedView
   \<and> panelView (doc (toggleSourcesSection (toggleSourcesSection nestedIconState))) = expandedView"
  by code_simp


section \<open>The search filter\<close>

lemma str_includes_Nil [simp]: "str_includes s []"
  by (cases s) simp_all

lemma str_includes_sublist: "str_includes s t \<longleftrightarrow> sublist t s"
proof (induction s)
  case Nil
  then show ?case by simp
next
  case (Cons c s)
  show ?case
    by (simp add: Cons.IH sublist_Cons_right)
qed

lemma isVisible_spec_match: "isVisible q e \<longleftrightarrow> spec_match q e"
  by (simp add: isVisible_def spec_match_def str_includes_sublist)



lemma style_writes [simp]:
  "style (setAttribute a n v d ! b) = style (d ! b)"
  "style (removeAttribute a n d ! b) = style (d ! b)"
  "style (classListAdd a c d ! b) = style (d ! b)"
  "style (classListRemove a c d ! b) = style (d ! b)"
  "style (setValue a t d ! b) = style (d ! b)"
  by (simp_all add: write_defs field_modify [where F = style])

lemma style_setStyle:
  "style (setStyle a n v d ! b) = (if b = a \<and> a < length d then (style (d ! b))(n \<mapsto> v) else style (d ! b))"
  by (cases "a < length d"; cases "b = a"; simp add: setStyle_def)

lemma attributes_writes [simp]:
  "attributes (setStyle a n v d ! b) = attributes (d ! b)"
  "attributes (classListAdd a c d ! b) = attributes (d ! b)"
  "attributes (classListRemove a c d ! b) = attributes (d ! b)"
  "attributes (setValue a t d ! b) = attributes (d ! b)"
  by (simp_all add: write_defs field_modify [where F = attributes])

lemma innerHTML_writes [simp]:
  "innerHTML (setStyle a n v d ! b) = innerHTML (d ! b)"
  "innerHTML (setAttribute a n v d ! b) = innerHTML (d ! b)"
  "innerHTML (removeAttribute a n d ! b) = innerHTML (d ! b)"
  "innerHTML (classListAdd a c d ! b) = innerHTML (d ! b)"
  "innerHTML (classListRemove a c d ! b) = innerHTML (d ! b)"
  "innerHTML (setValue a t d ! b) = innerHTML (d ! b)"
  by (simp_all add: write_defs field_modify [where F = innerHTML])

lemma classList_writes [simp]:
  "classList (setAttribute a n v d ! b) = classList (d ! b)"
  "classList (removeAttribute a n d ! b) = classList (d ! b)"
  "classList (setStyle a n v d ! b) = classList (d ! b)"
  "classList (setValue a t d ! b) = classList (d ! b)"
  by (simp_all add: write_defs field_modify [where F = classList])

lemma hasClass_writes [simp]:
  "hasClass k (setAttribute a n v d ! b) = hasClass k (d ! b)"
  "hasClass k (removeAttribute a n d ! b) = hasClass k (d ! b)"
  "hasClass k (setStyle a n v d ! b) = hasClass k (d ! b)"
  "hasClass k (setValue a t d ! b) = hasClass k (d ! b)"
  by (simp_all add: hasClass_def)

subsection \<open>The filter pass, step by step\<close>




lemma filter_pass_unfold:
  assumes "getElementById ''source-search'' d = Some si" "querySelector ''all-sources'' d = Some als"
  shows "originalFilterSources d =
     announceSearchResults (matchCount d als (normalizedQuery d si)) (normalizedQuery d si)
       (showNoResults als (matchCount d als (normalizedQuery d si)) (normalizedQuery d si)
         (fold (\<lambda>b. modify b (showHide (normalizedQuery d si))) (querySelectorAllIn als ''source-btn'' d) d))"
  using assms
  by (simp add: originalFilterSources_def Let_def fold_filterButton matchCount_def
      normalizedQuery_def isVisible_spec_match)







subsection \<open>The announcement\<close>

lemma announce_text:
  "\<exists>live. getElementById ''search-results-live'' (announceSearchResults n q d) = Some live
      \<and> textContent (announceSearchResults n q d ! live) = announcementText n q"
proof (cases "getElementById ''search-results-live'' d")
  case None
  let ?d' = "appendToBody newLiveRegion d"
  have "getElementById ''search-results-live'' ?d' = Some (length d)"
    using None
    by (subst getElementById_append [where d = d])
       (simp_all add: nth_appendToBody_new newLiveRegion_def)
  then have "getElementById ''search-results-live'' (setTextContent (length d) (announcementText n q) ?d')
      = Some (length d)"
    by (rule getElementById_setTextContent) simp
  then show ?thesis
    using None
    by (simp add: announceSearchResults_def Let_def textContent_setTextContent)
next
  case (Some live)
  then have "live < length d" by (simp add: getElementById_SomeD)
  moreover have "getElementById ''search-results-live'' (setTextContent live (announcementText n q) d)
      = Some live"
    using Some by (rule getElementById_setTextContent) simp
  ultimately show ?thesis
    using Some by (simp add: announceSearchResults_def Let_def textContent_setTextContent)
qed

text \<open>
  Claim C6. After a filter pass the live region exists and its text is determined by the
  normalized query and the number of matching items: "All sources displayed" for the empty
  query, whatever the count; otherwise "No sources found" for no match, "1 source found"
  for one, and the decimal count followed by " sources found" for more.
\<close>

theorem announcement_text:
  assumes si: "getElementById ''source-search'' d = Some si"
    and als: "querySelector ''all-sources'' d = Some als"
  shows "\<exists>live. getElementById ''search-results-live'' (originalFilterSources d) = Some live
      \<and> textContent (originalFilterSources d ! live) =
          (let q = normalizedQuery d si; n = matchCount d als q
           in if q = [] then ''All sources displayed''
              else if n = 0 then ''No sources found''
              else if n = 1 then ''1 source found''
              else numberToString n @ '' sources found'')"
  unfolding filter_pass_unfold [OF si als]
  using announce_text [of "matchCount d als (normalizedQuery d si)" "normalizedQuery d si"]
  by (simp add: announcementText_def Let_def)

theorem announcement_text_witness:
  "getElementById ''source-search'' (searchPage ''N'') = Some 6
   \<and> querySelector ''all-sources'' (searchPage ''N'') = Some 7
   \<and> matchCount (searchPage ''N'') 7 (normalizedQuery (searchPage ''N'') 6) = 3
   \<and> (\<exists>live. getElementById ''search-results-live'' (originalFilterSources (searchPage ''N'')) = Some live
         \<and> textContent (originalFilterSources (searchPage ''N'') ! live) = ''3 sources found'')
   \<and> (\<exists>live. getElementById ''search-results-live'' (originalFilterSources (searchPage ''  '')) = Some live
         \<and> textContent (originalFilterSources (searchPage ''  '') ! live) = ''All sources displayed'')
   \<and> (\<exists>live. getElementById ''search-results-live'' (originalFilterSources (searchPage ''zzz'')) = Some live
         \<and> textContent (originalFilterSources (searchPage ''zzz'') ! live) = ''No sources found'')
   \<and> (\<exists>live. getElementById ''search-results-live'' (originalFilterSources (searchPage ''BBC'')) = Some live
         \<and> textContent (originalFilterSources (searchPage ''BBC'') ! live) = ''1 source found'')"
proof -
  have si: "getElementById ''source-search'' (searchPage v) = Some 6" for v
    by (simp add: searchPage_def) code_simp
  have als: "querySelector ''all-sources'' (searchPage v) = Some 7" for v
    by (simp add: searchPage_def) code_simp
  have bs: "querySelectorAllIn 7 ''source-btn'' (searchPage v) = [8, 9, 10]" for v
    by (simp add: searchPage_def) code_simp
  have q: "normalizedQuery (searchPage ''N'') 6 = ''n''" "normalizedQuery (searchPage ''  '') 6 = []"
    "normalizedQuery (searchPage ''zzz'') 6 = ''zzz''" "normalizedQuery (searchPage ''BBC'') 6 = ''bbc''"
    by code_simp+
  have "map (\<lambda>b. isVisible ''n'' (searchPage ''N'' ! b)) [8, 9, 10] = [True, True, True]"
    "map (\<lambda>b. isVisible ''zzz'' (searchPage ''zzz'' ! b)) [8, 9, 10] = [False, False, False]"
    "map (\<lambda>b. isVisible ''bbc'' (searchPage ''BBC'' ! b)) [8, 9, 10] = [True, False, False]"
    by code_simp+
  then have n: "matchCount (searchPage ''N'') 7 ''n'' = 3"
    "matchCount (searchPage ''zzz'') 7 ''zzz'' = 0"
    "matchCount (searchPage ''BBC'') 7 ''bbc'' = 1"
    by (simp_all add: matchCount_def bs isVisible_spec_match)
  have t: "numberToString 3 = ''3''" by code_simp
  from announcement_text [OF si als, of "''N''"] announcement_text [OF si als, of "''  ''"]
    announcement_text [OF si als, of "''zzz''"] announcement_text [OF si als, of "''BBC''"]
  show ?thesis
    by (simp add: si als q n t Let_def)
qed

text \<open>The count is written in decimal.\<close>

lemma numberToString_examples:
  "numberToString 0 = ''0''" "numberToString 7 = ''7''" "numberToString 42 = ''42''"
  "numberToString 1000 = ''1000''"
  by code_simp+

subsection \<open>The "no results" message\<close>

lemma showNoResults_display:
  "noResultsDisplayed als (showNoResults als n q d) \<longleftrightarrow> n = 0 \<and> q \<noteq> []"
  "noResultsHidden als (showNoResults als n q d) \<longleftrightarrow> \<not> (n = 0 \<and> q \<noteq> [])"
proof -
  have new: "querySelectorIn als ''no-results'' (appendChild als (newNoResultsMsg q) d) = Some (length d)"
    if "querySelectorIn als ''no-results'' d = None"
    using that
    by (subst querySelectorIn_append [where d = d])
       (simp_all add: newNoResultsMsg_def hasClass_def)
  have r: "m < length d" if "querySelectorIn als ''no-results'' d = Some m" for m
    using querySelectorIn_SomeD [OF that] by simp
  show "noResultsDisplayed als (showNoResults als n q d) \<longleftrightarrow> n = 0 \<and> q \<noteq> []"
    by (auto simp: noResultsDisplayed_def showNoResults_def Let_def new r style_setStyle
        split: option.splits)
  show "noResultsHidden als (showNoResults als n q d) \<longleftrightarrow> \<not> (n = 0 \<and> q \<noteq> [])"
    by (auto simp: noResultsHidden_def showNoResults_def Let_def new r style_setStyle
        split: option.splits)
qed

lemma escapeHtml_example:
  "escapeHtml (''<script>\"'' @ [CHR 0x27] @ ''&'') = ''&lt;script&gt;&quot;&#039;&amp;''"
  by code_simp

lemma escapeHtml_plain: "\<forall>c\<in>set t. c \<notin> set (''&<>\"'' @ [CHR 0x27]) \<Longrightarrow> escapeHtml t = t"
  by (induction t) (auto simp: escapeHtml_def escapeChar_def)

text \<open>
  Claim C5. The step that shows or hides the message shows it exactly when the query is not
  empty and nothing matches (\<open>showNoResults_display\<close>), but the message does not always
  contain the query text: the markup is written only when the message is created. After a
  first pass with the query "zzz" and a second with "qqq", the message on display still
  reads "zzz".
\<close>

theorem noResults_message_stale:
  "normalizedQuery (setValue 0 ''qqq'' (originalFilterSources (tinyPage ''zzz''))) 0 = ''qqq''
   \<and> querySelectorIn 1 ''no-results'' stalePage = Some 3
   \<and> noResultsDisplayed 1 stalePage
   \<and> innerHTML (stalePage ! 3)
       = Some ''<i class=\"fas fa-search\"></i> No sources found matching \"zzz\"''"
proof -
  have "(normalizedQuery (setValue 0 ''qqq'' (originalFilterSources (tinyPage ''zzz''))) 0,
         querySelectorIn 1 ''no-results'' stalePage,
         style (stalePage ! 3) ''display'', innerHTML (stalePage ! 3))
      = (''qqq'', Some 3, Some ''block'',
         Some ''<i class=\"fas fa-search\"></i> No sources found matching \"zzz\"'')"
    by code_simp
  then show ?thesis by (simp add: noResultsDisplayed_def)
qed

section \<open>Timers and the event loop\<close>

lemma initializeFilterNav_absent:
  "getElementById ''sources-content'' d = None \<or> querySelector ''toggle-sources'' d = None
   \<Longrightarrow> initializeFilterNav d = d"
  by (auto simp: initializeFilterNav_def split: option.splits)

lemma originalFilterSources_absent:
  "getElementById ''source-search'' d = None \<or> querySelector ''all-sources'' d = None
   \<Longrightarrow> originalFilterSources d = d"
  by (auto simp: originalFilterSources_def split: option.splits)

lemma doc_filterSources [simp]: "doc (filterSources s) = doc s"
  by (simp add: filterSources_def Let_def setTimeout_def clearTimeout_def split: option.splits)

lemma runTimer_fields [simp]:
  "now (runTimer t s) = now s" "timers (runTimer t s) = timers s"
  "searchTimeout (runTimer t s) = searchTimeout s" "nextTimer (runTimer t s) = nextTimer s"
  by (simp_all add: runTimer_def Let_def split: task.splits)

lemma fold_runTimer_fields [simp]:
  "now (fold runTimer ts s) = now s" "timers (fold runTimer ts s) = timers s"
  "searchTimeout (fold runTimer ts s) = searchTimeout s" "nextTimer (fold runTimer ts s) = nextTimer s"
  by (induction ts arbitrary: s) simp_all

lemma doc_runTimer:
  "doc (runTimer t s) = (if isFilter t then originalFilterSources (doc s) else doc s)"
  by (simp add: runTimer_def Let_def isFilter_def split: task.splits)

lemma filterRuns_runTimer:
  "filterRuns (runTimer t s) = (if isFilter t then filterRuns s @ [now s] else filterRuns s)"
  by (simp add: runTimer_def Let_def isFilter_def filterRuns_def split: task.splits)

lemma doc_fold_runTimer:
  "doc (fold runTimer ts s) = (originalFilterSources ^^ length (filter isFilter ts)) (doc s)"
  by (induction ts arbitrary: s) (simp_all add: doc_runTimer funpow_swap1)

lemma filterRuns_fold_runTimer:
  "filterRuns (fold runTimer ts s) = filterRuns s @ replicate (length (filter isFilter ts)) (now s)"
  by (induction ts arbitrary: s) (simp_all add: filterRuns_runTimer replicate_app_Cons_same)

lemma elapse_Suc_tick: "elapse (Suc n) s = elapse n (tick s)"
  by (simp add: tick_def)

lemma tick_fields [simp]:
  "now (tick s) = Suc (now s)"
  "timers (tick s) = filter (\<lambda>t. \<not> due t \<le> Suc (now s)) (timers s)"
  "searchTimeout (tick s) = searchTimeout s"
  by (simp_all add: tick_def fireDue_def)

lemma doc_tick:
  "doc (tick s) =
     (originalFilterSources ^^ length (filter (\<lambda>t. due t \<le> Suc (now s)) (filter isFilter (timers s)))) (doc s)"
proof -
  have "filter isFilter (filter (\<lambda>t. due t \<le> Suc (now s)) (timers s))
      = filter (\<lambda>t. due t \<le> Suc (now s)) (filter isFilter (timers s))"
    by (simp add: conj_commute)
  then show ?thesis by (simp add: tick_def fireDue_def doc_fold_runTimer)
qed

lemma filterRuns_tick:
  "filterRuns (tick s) =
     filterRuns s @ replicate (length (filter (\<lambda>t. due t \<le> Suc (now s)) (filter isFilter (timers s)))) (Suc (now s))"
proof -
  have "filter isFilter (filter (\<lambda>t. due t \<le> Suc (now s)) (timers s))
      = filter (\<lambda>t. due t \<le> Suc (now s)) (filter isFilter (timers s))"
    by (simp add: conj_commute)
  moreover have "filterRuns (s\<lparr>now := Suc (now s), timers := ts\<rparr>) = filterRuns s" for ts
    by (simp add: filterRuns_def)
  ultimately show ?thesis by (simp add: tick_def fireDue_def filterRuns_fold_runTimer)
qed

lemma filterTimers_tick:
  "filter isFilter (timers (tick s)) = filter (\<lambda>t. \<not> due t \<le> Suc (now s)) (filter isFilter (timers s))"
  by (simp add: conj_commute)

lemma elapse_add: "elapse (m + n) s = elapse n (elapse m s)"
  by (induction m arbitrary: s) simp_all

lemma now_elapse [simp]: "now (elapse n s) = now s + n"
  by (induction n arbitrary: s) (simp_all add: fireDue_def)

lemma searchTimeout_elapse [simp]: "searchTimeout (elapse n s) = searchTimeout s"
  by (induction n arbitrary: s) (simp_all add: fireDue_def)

lemma elapse_idle:
  assumes "filter isFilter (timers s) = []"
  shows "filter isFilter (timers (elapse n s)) = [] \<and> doc (elapse n s) = doc s
         \<and> filterRuns (elapse n s) = filterRuns s"
  using assms
proof (induction n arbitrary: s)
  case 0
  then show ?case by simp
next
  case (Suc n)
  have t: "filter isFilter (timers (tick s)) = []" "doc (tick s) = doc s" "filterRuns (tick s) = filterRuns s"
    unfolding filterTimers_tick doc_tick filterRuns_tick Suc.prems by simp_all
  from Suc.IH [OF t(1)] t show ?case unfolding elapse_Suc_tick by simp
qed

lemma elapse_before:
  assumes "pendingAt T s" "now s + n < T"
  shows "pendingAt T (elapse n s) \<and> doc (elapse n s) = doc s \<and> filterRuns (elapse n s) = filterRuns s"
  using assms
proof (induction n arbitrary: s)
  case 0
  then show ?case by simp
next
  case (Suc n)
  from Suc.prems obtain i where i: "searchTimeout s = Some i"
    "filter isFilter (timers s) = [\<lparr>timerId = i, due = T, job = FilterTask\<rparr>]"
    by (auto simp: pendingAt_def split: option.splits)
  have lt: "\<not> T \<le> Suc (now s)" using Suc.prems by simp
  have t: "doc (tick s) = doc s" "filterRuns (tick s) = filterRuns s"
    unfolding doc_tick filterRuns_tick i using lt by simp_all
  have "filter isFilter (timers (tick s)) = [\<lparr>timerId = i, due = T, job = FilterTask\<rparr>]"
    unfolding filterTimers_tick i using lt by simp
  then have p: "pendingAt T (tick s)" using i by (simp add: pendingAt_def)
  have "now (tick s) + n < T" using Suc.prems by simp
  from Suc.IH [OF p this] t show ?case unfolding elapse_Suc_tick by simp
qed

lemma tick_fire:
  assumes "pendingAt T s" "T = Suc (now s)"
  shows "filter isFilter (timers (tick s)) = [] \<and> doc (tick s) = originalFilterSources (doc s)
         \<and> filterRuns (tick s) = filterRuns s @ [T]"
proof -
  from assms obtain i where i: "searchTimeout s = Some i"
    "filter isFilter (timers s) = [\<lparr>timerId = i, due = T, job = FilterTask\<rparr>]"
    by (auto simp: pendingAt_def split: option.splits)
  show ?thesis
    unfolding filterTimers_tick doc_tick filterRuns_tick i using assms(2) by simp
qed

lemma elapse_fire:
  assumes p: "pendingAt T s" and lt: "now s < T" and ge: "T \<le> now s + n"
  shows "filter isFilter (timers (elapse n s)) = [] \<and> doc (elapse n s) = originalFilterSources (doc s)
         \<and> filterRuns (elapse n s) = filterRuns s @ [T]"
proof -
  define a where "a = T - Suc (now s)"
  define r where "r = now s + n - T"
  have n: "n = a + (Suc 0 + r)" using lt ge by (simp add: a_def r_def)
  let ?s1 = "elapse a s"
  have b: "pendingAt T ?s1 \<and> doc ?s1 = doc s \<and> filterRuns ?s1 = filterRuns s"
    by (rule elapse_before [OF p]) (use lt in \<open>simp add: a_def\<close>)
  have T: "T = Suc (now ?s1)" using lt by (simp add: a_def)
  have f: "filter isFilter (timers (tick ?s1)) = [] \<and> doc (tick ?s1) = originalFilterSources (doc ?s1)
         \<and> filterRuns (tick ?s1) = filterRuns ?s1 @ [T]"
    by (rule tick_fire) (use b T in simp_all)
  have e: "elapse n s = elapse r (tick ?s1)"
    unfolding n elapse_add by (simp add: tick_def)
  from elapse_idle [of "tick ?s1" r] f b show ?thesis unfolding e by simp
qed

subsection \<open>The debounce wrapper\<close>

lemma timersOk_filter: "timersOk s \<longleftrightarrow> (\<forall>t\<in>set (filter isFilter (timers s)). searchTimeout s = Some (timerId t))"
  by (auto simp: timersOk_def list_all_iff isFilter_def)

lemma pendingAt_timersOk:
  assumes "pendingAt T s"
  shows "timersOk s"
proof -
  from assms obtain i where i: "searchTimeout s = Some i"
    "filter isFilter (timers s) = [\<lparr>timerId = i, due = T, job = FilterTask\<rparr>]"
    by (auto simp: pendingAt_def split: option.splits)
  show ?thesis unfolding timersOk_filter i by simp
qed

lemma filterSources_pending:
  assumes "timersOk s"
  shows "pendingAt (now s + 150) (filterSources s)"
proof -
  have "filter isFilter (timers (clearTimeout (searchTimeout s) s)) = []"
  proof (cases "searchTimeout s")
    case None
    with assms show ?thesis
      by (auto simp: timersOk_filter clearTimeout_def filter_empty_conv)
  next
    case (Some i)
    with assms show ?thesis
      by (auto simp: timersOk_filter clearTimeout_def filter_empty_conv)
  qed
  then show ?thesis
    by (simp add: pendingAt_def filterSources_def Let_def setTimeout_def isFilter_def clearTimeout_def
        split: option.splits)
qed

lemma filterSources_fields [simp]:
  "now (filterSources s) = now s" "filterRuns (filterSources s) = filterRuns s"
  by (simp_all add: filterSources_def Let_def setTimeout_def clearTimeout_def filterRuns_def
      split: option.splits)

lemma typeValue_fields [simp]:
  "now (typeValue v s) = now s" "filterRuns (typeValue v s) = filterRuns s"
  "timers (typeValue v s) = timers s" "searchTimeout (typeValue v s) = searchTimeout s"
  by (simp_all add: typeValue_def filterRuns_def split: option.splits)

lemma pendingAt_typeValue [simp]: "pendingAt T (typeValue v s) = pendingAt T s"
  by (simp add: pendingAt_def split: option.splits)

lemma timersOk_typeValue [simp]: "timersOk (typeValue v s) = timersOk s"
  by (simp add: timersOk_def)

lemma setValue_setValue: "setValue a v (setValue a w d) = setValue a v d"
  by (simp add: setValue_def modify_modify)

lemma burst_pending:
  assumes "pendingAt (now s + 150) s" "\<forall>(gap, v)\<in>set rest. gap < 150"
  shows "pendingAt (now (burst rest s) + 150) (burst rest s)
       \<and> filterRuns (burst rest s) = filterRuns s
       \<and> now (burst rest s) = now s + sum_list (map fst rest)
       \<and> (getElementById ''source-search'' (doc s) = None \<longrightarrow> doc (burst rest s) = doc s)
       \<and> (\<forall>si. getElementById ''source-search'' (doc s) = Some si \<and> rest \<noteq> [] \<longrightarrow>
             doc (burst rest s) = setValue si (snd (last rest)) (doc s))
       \<and> (rest = [] \<longrightarrow> doc (burst rest s) = doc s)"
  using assms
proof (induction rest arbitrary: s)
  case Nil
  then show ?case by simp
next
  case (Cons x rest)
  obtain gap v where x: "x = (gap, v)" by (cases x)
  let ?e = "elapse gap s"
  let ?s' = "filterSources (typeValue v ?e)"
  have g: "now s + gap < now s + 150" using Cons.prems x by simp
  have e: "pendingAt (now s + 150) ?e \<and> doc ?e = doc s \<and> filterRuns ?e = filterRuns s"
    by (rule elapse_before [OF Cons.prems(1) g])
  then have "pendingAt (now s + 150) ?e" by blast
  then have "timersOk ?e" by (rule pendingAt_timersOk)
  then have "timersOk (typeValue v ?e)" by simp
  from filterSources_pending [OF this] have p: "pendingAt (now ?s' + 150) ?s'" by simp
  have r: "\<forall>(gap, v)\<in>set rest. gap < 150" using Cons.prems by simp
  note ih = Cons.IH [OF p r]
  have d': "doc (typeValue v ?e) = (case getElementById ''source-search'' (doc s) of None \<Rightarrow> doc s
                        | Some si \<Rightarrow> setValue si v (doc s))"
    using e by (simp add: typeValue_def split: option.splits)
  have f': "filterRuns ?s' = filterRuns s" "now ?s' = now s + gap" using e by simp_all
  show ?case
    using ih f'
    by (cases "rest = []") (auto simp: x d' setValue_setValue split: option.splits)
qed

text \<open>
  Claim C4. Take a state in which the only pending filter timer, if any, is the one the
  wrapper holds, and a burst of invocations: a first one, then further ones, each less
  than 150 ms after the one before it (the search field may change before each). No filter
  pass runs during the burst, and none in the 150 ms after its last invocation; from
  150 ms after the last invocation on, exactly one pass has run, at that moment, and it ran
  on the page as the burst left it, whose search field holds the last value typed.
\<close>

theorem debounce_burst:
  assumes ok: "timersOk s" and gaps: "\<forall>(gap, v)\<in>set rest. gap < 150"
  shows "(let b = burst rest (filterSources (typeValue v0 s))
          in filterRuns b = filterRuns s
           \<and> now b = now s + sum_list (map fst rest)
           \<and> (\<forall>k<150. filterRuns (elapse k b) = filterRuns s \<and> doc (elapse k b) = doc b)
           \<and> (\<forall>k\<ge>150. filterRuns (elapse k b) = filterRuns s @ [now b + 150]
                        \<and> doc (elapse k b) = originalFilterSources (doc b))
           \<and> (\<forall>si. getElementById ''source-search'' (doc s) = Some si \<longrightarrow>
                 doc b = setValue si (snd (last ((0, v0) # rest))) (doc s)))"
proof -
  let ?s0 = "filterSources (typeValue v0 s)"
  let ?b = "burst rest ?s0"
  have "timersOk (typeValue v0 s)" using ok by simp
  from filterSources_pending [OF this] have p0: "pendingAt (now ?s0 + 150) ?s0" by simp
  note bp = burst_pending [OF p0 gaps]
  then have p: "pendingAt (now ?b + 150) ?b" by blast
  have d0: "doc (typeValue v0 s) = (case getElementById ''source-search'' (doc s) of None \<Rightarrow> doc s
                        | Some si \<Rightarrow> setValue si v0 (doc s))"
    by (simp add: typeValue_def split: option.splits)
  have 1: "filterRuns ?b = filterRuns s" using bp by simp
  have 2: "now ?b = now s + sum_list (map fst rest)" using bp by simp
  have 3: "filterRuns (elapse k ?b) = filterRuns s \<and> doc (elapse k ?b) = doc ?b" if "k < 150" for k
    using elapse_before [OF p, of k] that 1 by simp
  have 4: "filterRuns (elapse k ?b) = filterRuns s @ [now ?b + 150]
         \<and> doc (elapse k ?b) = originalFilterSources (doc ?b)" if "150 \<le> k" for k
    using elapse_fire [OF p, of k] that 1 by simp
  have 5: "doc ?b = setValue si (snd (last ((0, v0) # rest))) (doc s)"
    if "getElementById ''source-search'' (doc s) = Some si" for si
    using bp that by (cases "rest = []") (auto simp: d0 setValue_setValue)
  show ?thesis
    unfolding Let_def using 1 2 3 4 5 by blast
qed

theorem debounce_burst_witness:
  "timersOk sampleState
   \<and> (50::nat) < 150 \<and> (100::nat) < 150
   \<and> now (burst [(50, ''bb''), (100, ''bbc'')] (filterSources (typeValue ''b'' sampleState))) = 150
   \<and> filterRuns (burst [(50, ''bb''), (100, ''bbc'')] (filterSources (typeValue ''b'' sampleState))) = []
   \<and> filterRuns (elapse 149 (burst [(50, ''bb''), (100, ''bbc'')]
         (filterSources (typeValue ''b'' sampleState)))) = []
   \<and> filterRuns (elapse 150 (burst [(50, ''bb''), (100, ''bbc'')]
         (filterSources (typeValue ''b'' sampleState)))) = [300]
   \<and> doc (elapse 150 (burst [(50, ''bb''), (100, ''bbc'')]
         (filterSources (typeValue ''b'' sampleState))))
       = originalFilterSources (setValue 6 ''bbc'' samplePage)"
proof -
  let ?rest = "[(50, ''bb''), (100, ''bbc'')] :: (nat \<times> string) list"
  let ?b = "burst ?rest (filterSources (typeValue ''b'' sampleState))"
  have ok: "timersOk sampleState" by (simp add: timersOk_def sampleState_def)
  have gaps: "\<forall>(gap, v)\<in>set ?rest. gap < 150" by simp
  have si: "getElementById ''source-search'' (doc sampleState) = Some 6" by code_simp
  have s0: "filterRuns sampleState = []" "now sampleState = 0" "doc sampleState = samplePage"
    by (simp_all add: filterRuns_def sampleState_def)
  from debounce_burst [OF ok gaps, of "''b''"]
  have a: "filterRuns ?b = []" "now ?b = 150"
    and b: "\<And>k. k < 150 \<Longrightarrow> filterRuns (elapse k ?b) = []"
    and c: "\<And>k. 150 \<le> k \<Longrightarrow> filterRuns (elapse k ?b) = [now ?b + 150]
              \<and> doc (elapse k ?b) = originalFilterSources (doc ?b)"
    and d: "doc ?b = setValue 6 ''bbc'' samplePage"
    using si by (simp_all add: Let_def s0)
  from b [of 149] c [of 150] a d ok show ?thesis by simp
qed

section \<open>Missing elements\<close>

lemma elapse_absent:
  assumes "getElementById ''source-search'' (doc s) = None \<or> querySelector ''all-sources'' (doc s) = None"
  shows "doc (elapse n s) = doc s"
  using assms
proof (induction n arbitrary: s)
  case 0
  then show ?case by simp
next
  case (Suc n)
  have "(originalFilterSources ^^ k) (doc s) = doc s" for k
    by (induction k) (simp_all add: originalFilterSources_absent [OF Suc.prems])
  then have t: "doc (tick s) = doc s" by (simp add: doc_tick)
  with Suc.prems have "doc (elapse n (tick s)) = doc (tick s)"
    by (intro Suc.IH) simp
  with t show ?case unfolding elapse_Suc_tick by simp
qed

text \<open>
  Claim C9. When a required element is missing, the initializer, the toggle operation and
  the filter pass return without changing the page: the initializer and the filter pass
  return the document as it was, the toggle operation only writes its line to the console,
  and the debounced filter operation leaves the document as it was at its call and at any
  later time, when its timer has run.
\<close>

theorem absent_elements_no_effect:
  "(getElementById ''sources-content'' d = None \<or> querySelector ''toggle-sources'' d = None
      \<longrightarrow> initializeFilterNav d = d)
   \<and> (getElementById ''sources-content'' (doc s) = None
        \<or> querySelector ''toggle-sources'' (doc s) = None
        \<or> querySelector ''toggle-text'' (doc s) = None
        \<or> querySelector ''toggle-icon'' (doc s) = None
      \<longrightarrow> toggleSourcesSection s = s\<lparr>console := console s @ [''toggleSourcesSection called'']\<rparr>)
   \<and> (getElementById ''source-search'' d = None \<or> querySelector ''all-sources'' d = None
      \<longrightarrow> originalFilterSources d = d)
   \<and> (getElementById ''source-search'' (doc s) = None \<or> querySelector ''all-sources'' (doc s) = None
      \<longrightarrow> (\<forall>n. doc (elapse n (filterSources s)) = doc s))"
  using initializeFilterNav_absent [of d] toggle_absent [of s] originalFilterSources_absent [of d]
    elapse_absent [of "filterSources s"]
  by simp

theorem absent_elements_no_effect_witness:
  "getElementById ''sources-content'' barePage = None
   \<and> getElementById ''source-search'' barePage = None
   \<and> initializeFilterNav barePage = barePage
   \<and> doc (toggleSourcesSection (sampleState\<lparr>doc := barePage\<rparr>)) = barePage
   \<and> originalFilterSources barePage = barePage
   \<and> doc (elapse 150 (filterSources (sampleState\<lparr>doc := barePage\<rparr>))) = barePage"
proof -
  have p: "getElementById ''sources-content'' barePage = None"
    "getElementById ''source-search'' barePage = None"
    by code_simp+
  from absent_elements_no_effect [of barePage "sampleState\<lparr>doc := barePage\<rparr>"] p
  show ?thesis by simp
qed

section \<open>Active links\<close>

lemma markActive_modify: "markActive p b d = modify b (markElement p) d"
proof (cases "b < length d")
  case True
  then show ?thesis
    by (auto simp: markActive_def markElement_def getAttribute_def setAttribute_def classListAdd_def
        modify_def split: option.splits)
next
  case False
  then show ?thesis
    by (simp add: markActive_def setAttribute_def classListAdd_def split: option.splits)
qed

lemma markElement_idem: "markElement p (markElement p e) = markElement p e"
  by (simp add: markElement_def split: option.splits)

lemma markElement_frame [simp]:
  "ident (markElement p e) = ident e" "ancestors (markElement p e) = ancestors e"
  "tagName (markElement p e) = tagName e" "textContent (markElement p e) = textContent e"
  "k \<noteq> ''active'' \<Longrightarrow> hasClass k (markElement p e) = hasClass k e"
  "n \<noteq> ''aria-current'' \<Longrightarrow> attributes (markElement p e) n = attributes e n"
  "isConnected (markElement p e) = isConnected e"
  by (simp_all add: markElement_def hasClass_def split: option.splits)

lemma initializeActiveFilters_unfold:
  "initializeActiveFilters p d =
     fold (\<lambda>b. modify b (markElement p)) (querySelectorAll ''source-btn'' d)
       (fold (\<lambda>b. modify b (markElement p)) (querySelectorAll ''category-btn'' d) d)"
proof -
  have m: "markActive p = (\<lambda>b. modify b (markElement p))"
    by (intro ext) (rule markActive_modify)
  show ?thesis
    by (simp add: initializeActiveFilters_def Let_def m querySelectorAll_fold_modify)
qed

lemma initializeActiveFilters_nth:
  assumes "b < length d"
  shows "initializeActiveFilters p d ! b =
     (if isConnected (d ! b) \<and> (hasClass ''category-btn'' (d ! b) \<or> hasClass ''source-btn'' (d ! b))
      then markElement p (d ! b) else d ! b)"
  using assms
  by (auto simp: initializeActiveFilters_unfold nth_fold_modify set_querySelectorAll markElement_idem)

text \<open>
  Claim C2, as amended. At initialization, every category link and source link of the
  document with a non-empty href is marked active and given \<open>aria-current="page"\<close> if the current path
  contains the href without its longest leading run of characters other than the slash,
  and is left as it was otherwise.
\<close>

theorem active_links:
  assumes b: "b < length d" and i: "isConnected (d ! b)"
    and c: "hasClass ''category-btn'' (d ! b) \<or> hasClass ''source-btn'' (d ! b)"
    and h: "getAttribute b ''href'' d = Some href" and ne: "href \<noteq> []"
  shows "(str_includes currentPath (stripLeadingNonSlash href) \<longrightarrow>
            hasClass ''active'' (initializeActiveFilters currentPath d ! b)
            \<and> getAttribute b ''aria-current'' (initializeActiveFilters currentPath d) = Some ''page'')
       \<and> (\<not> str_includes currentPath (stripLeadingNonSlash href) \<longrightarrow>
            initializeActiveFilters currentPath d ! b = d ! b)"
  using i c h ne
  by (simp add: initializeActiveFilters_nth [OF b] getAttribute_def markElement_def hasClass_def)

theorem active_links_witness:
  "8 < length samplePage
   \<and> isConnected (samplePage ! 8)
   \<and> hasClass ''source-btn'' (samplePage ! 8)
   \<and> getAttribute 8 ''href'' samplePage = Some ''/source/bbc/''
   \<and> str_includes ''/source/bbc/'' (stripLeadingNonSlash ''/source/bbc/'')
   \<and> hasClass ''active'' (initializeActiveFilters ''/source/bbc/'' samplePage ! 8)
   \<and> getAttribute 8 ''aria-current'' (initializeActiveFilters ''/source/bbc/'' samplePage) = Some ''page''
   \<and> getAttribute 9 ''href'' samplePage = Some ''/source/cnn/''
   \<and> \<not> str_includes ''/source/bbc/'' (stripLeadingNonSlash ''/source/cnn/'')
   \<and> initializeActiveFilters ''/source/bbc/'' samplePage ! 9 = samplePage ! 9"
proof -
  have l: "8 < length samplePage" "9 < length samplePage" by code_simp+
  have c: "hasClass ''category-btn'' (samplePage ! 8) \<or> hasClass ''source-btn'' (samplePage ! 8)"
    "hasClass ''category-btn'' (samplePage ! 9) \<or> hasClass ''source-btn'' (samplePage ! 9)"
    by code_simp+
  have c8: "hasClass ''source-btn'' (samplePage ! 8)" by code_simp
  have ic: "isConnected (samplePage ! 8)" "isConnected (samplePage ! 9)" by code_simp+
  have h: "getAttribute 8 ''href'' samplePage = Some ''/source/bbc/''"
    "getAttribute 9 ''href'' samplePage = Some ''/source/cnn/''"
    by code_simp+
  have ne: "''/source/bbc/'' \<noteq> []" "''/source/cnn/'' \<noteq> []" by simp_all
  have i: "str_includes ''/source/bbc/'' (stripLeadingNonSlash ''/source/bbc/'')"
    "\<not> str_includes ''/source/bbc/'' (stripLeadingNonSlash ''/source/cnn/'')"
    by code_simp+
  from active_links [OF l(1) ic(1) c(1) h(1) ne(1), of "''/source/bbc/''"] i(1)
  have m8: "hasClass ''active'' (initializeActiveFilters ''/source/bbc/'' samplePage ! 8)"
    "getAttribute 8 ''aria-current'' (initializeActiveFilters ''/source/bbc/'' samplePage) = Some ''page''"
    by blast+
  from active_links [OF l(2) ic(2) c(2) h(2) ne(2), of "''/source/bbc/''"] i(2)
  have u9: "initializeActiveFilters ''/source/bbc/'' samplePage ! 9 = samplePage ! 9"
    by blast
  show ?thesis
    by (intro conjI) (rule l(1) ic(1) c8 h i m8 u9)+
qed

text \<open>
  The claim as stated fails for an absolute href: on the page \<open>/source/nyt/\<close> the link to
  \<open>https://example.com/source/nyt/\<close> has a target that, with its scheme and host stripped,
  is the current path, and the link is not marked. The code removes \<open>https:\<close> only and looks
  for \<open>//example.com/source/nyt/\<close> in the path. It fails for an empty href too, which every
  path contains and the guard \<open>href && ...\<close> skips.
\<close>

theorem active_links_counterexample:
  "str_includes ''/source/nyt/'' (spec_stripSchemeHost ''https://example.com/source/nyt/'')
   \<and> hasClass ''source-btn'' (samplePage ! 10)
   \<and> getAttribute 10 ''href'' samplePage = Some ''https://example.com/source/nyt/''
   \<and> stripLeadingNonSlash ''https://example.com/source/nyt/'' = ''//example.com/source/nyt/''
   \<and> \<not> hasClass ''active'' (initializeActiveFilters ''/source/nyt/'' samplePage ! 10)
   \<and> getAttribute 10 ''aria-current'' (initializeActiveFilters ''/source/nyt/'' samplePage) = None
   \<and> getAttribute 0 ''href'' emptyHrefPage = Some []
   \<and> hasClass ''category-btn'' (emptyHrefPage ! 0)
   \<and> str_includes ''/news/'' (spec_stripSchemeHost [])
   \<and> \<not> hasClass ''active'' (initializeActiveFilters ''/news/'' emptyHrefPage ! 0)"
  by code_simp

section \<open>The Escape key\<close>



lemma isVisible_empty [simp]: "isVisible [] e"
  by (simp add: isVisible_def)







section \<open>The state after initialization, and what the events keep\<close>

lemma getAttribute_appendToBody [simp]:
  "a < length d \<Longrightarrow> getAttribute a n (appendToBody e d) = getAttribute a n d"
  by (simp add: getAttribute_def)








subsection \<open>The wrapper holds the only filter timer\<close>

lemma timersOk_initial: "timers s = [] \<Longrightarrow> timersOk s"
  by (simp add: timersOk_def)

lemma timersOk_filterSources: "timersOk s \<Longrightarrow> timersOk (filterSources s)"
  by (rule pendingAt_timersOk) (rule filterSources_pending)

lemma timersOk_toggleSourcesSection: "timersOk s \<Longrightarrow> timersOk (toggleSourcesSection s)"
  by (simp add: timersOk_def toggleSourcesSection_def Let_def setTimeout_def split: option.splits)

lemma timersOk_tick: "timersOk s \<Longrightarrow> timersOk (tick s)"
  by (simp add: timersOk_def list_all_iff)

lemma timersOk_elapse: "timersOk s \<Longrightarrow> timersOk (elapse n s)"
proof (induction n arbitrary: s)
  case 0
  then show ?case by simp
next
  case (Suc n)
  then show ?case unfolding elapse_Suc_tick by (simp add: timersOk_tick)
qed

lemma timersOk_keydown: "timersOk s \<Longrightarrow> timersOk (keydown key tg s)"
proof -
  assume ok: "timersOk s"
  have a: "timersOk (x\<lparr>doc := d\<rparr>) = timersOk x" for x d by (simp add: timersOk_def)
  show ?thesis
    using ok
    by (auto simp: keydown_def Let_def a timersOk_toggleSourcesSection timersOk_filterSources
        split: option.splits)
qed

subsection \<open>The scroll listener holds its button\<close>

lemma initializeBackToTop_watcher:
  "backToTop (watchers (initializeBackToTop s) ! length (watchers s))
     < length (doc (initializeBackToTop s))"
  by (simp add: initializeBackToTop_def)

end
